theory Spec2Isabelle
  imports Main
begin

section \<open>Python strings\<close>

text \<open>
  A Python \<open>str\<close> is a sequence of Unicode code points and \<open>len\<close> counts code points.
  A string is therefore modelled as a list of code points (natural numbers), not as a
  list of bytes.  \<open>str\<close> turns an ASCII literal into such a string.
\<close>

type_synonym codepoint = nat
type_synonym pystr = "codepoint list"

definition str :: "string \<Rightarrow> pystr" where
  "str s = map of_char s"

text \<open>
  The characters for which \<open>str.isspace()\<close> holds: the ones \<open>str.strip()\<close>,
  \<open>str.lstrip()\<close> and \<open>str.split()\<close> treat as whitespace, and the ones the regular
  expression class \<open>\s\<close> matches in a \<open>str\<close> pattern.
\<close>

definition isspace :: "codepoint \<Rightarrow> bool" where
  "isspace c \<longleftrightarrow>
     (0x09 \<le> c \<and> c \<le> 0x0D) \<or> (0x1C \<le> c \<and> c \<le> 0x20) \<or> c = 0x85 \<or> c = 0xA0 \<or>
     c = 0x1680 \<or> (0x2000 \<le> c \<and> c \<le> 0x200A) \<or> c = 0x2028 \<or> c = 0x2029 \<or>
     c = 0x202F \<or> c = 0x205F \<or> c = 0x3000"

definition lstrip :: "pystr \<Rightarrow> pystr" where
  "lstrip s = dropWhile isspace s"

definition rstrip :: "pystr \<Rightarrow> pystr" where
  "rstrip s = rev (dropWhile isspace (rev s))"

definition strip :: "pystr \<Rightarrow> pystr" where
  "strip s = rstrip (lstrip s)"

definition startswith :: "pystr \<Rightarrow> pystr \<Rightarrow> bool" where
  "startswith s p \<longleftrightarrow> take (length p) s = p"

text \<open>
  \<open>s.split()\<close> without arguments: the maximal runs of non-whitespace characters.
  \<open>split_from cur s\<close> scans \<open>s\<close> with the word \<open>cur\<close> read so far.
\<close>

fun split_from :: "pystr \<Rightarrow> pystr \<Rightarrow> pystr list" where
  "split_from cur [] = (if cur = [] then [] else [cur])"
| "split_from cur (c # cs) =
     (if isspace c then (if cur = [] then split_from [] cs else cur # split_from [] cs)
      else split_from (cur @ [c]) cs)"

definition split :: "pystr \<Rightarrow> pystr list" where
  "split s = split_from [] s"

section \<open>The regular expressions of the \<open>re\<close> module\<close>

text \<open>
  The patterns of \<open>generate.py\<close> use literals, character classes, \<open>*\<close>, \<open>+\<close>, \<open>*?\<close>,
  \<open>?\<close>, alternation and one capturing group.  \<open>bt\<close> is the backtracking matcher of
  the \<open>re\<close> module for this fragment, in continuation-passing style: \<open>bt r s g k\<close>
  matches \<open>r\<close> at the front of \<open>s\<close> and hands the rest of the input and the text of
  group 1 to the continuation \<open>k\<close>; when \<open>k\<close> fails, the next alternative of \<open>r\<close> is
  tried.  A greedy star tries one more iteration before it tries to stop, a lazy star
  tries to stop first; an alternation tries its branches from left to right.
\<close>

datatype re =
    Atom "codepoint \<Rightarrow> bool"
  | Eps
  | Seq re re
  | Alt re re
  | Star re
  | LazyStar re
  | Group re

fun bt :: "re \<Rightarrow> pystr \<Rightarrow> pystr option \<Rightarrow> (pystr \<Rightarrow> pystr option \<Rightarrow> 'a option) \<Rightarrow> 'a option" where
  "bt (Atom P) s g k = (case s of [] \<Rightarrow> None | c # cs \<Rightarrow> if P c then k cs g else None)"
| "bt Eps s g k = k s g"
| "bt (Seq a b) s g k = bt a s g (\<lambda>s' g'. bt b s' g' k)"
| "bt (Alt a b) s g k = (case bt a s g k of Some x \<Rightarrow> Some x | None \<Rightarrow> bt b s g k)"
| "bt (Star a) s g k =
     (case bt a s g (\<lambda>s' g'. if length s' < length s then bt (Star a) s' g' k else None) of
        Some x \<Rightarrow> Some x
      | None \<Rightarrow> k s g)"
| "bt (LazyStar a) s g k =
     (case k s g of
        Some x \<Rightarrow> Some x
      | None \<Rightarrow> bt a s g (\<lambda>s' g'. if length s' < length s then bt (LazyStar a) s' g' k else None))"
| "bt (Group a) s g k = bt a s g (\<lambda>s' g'. k s' (Some (take (length s - length s') s)))"

text \<open>
  \<open>match_at r s\<close> is \<open>re.match(r, s)\<close>: the length of the match of \<open>r\<close> at the front of
  \<open>s\<close> and the text of group 1, or \<open>None\<close>.
\<close>

definition match_at :: "re \<Rightarrow> pystr \<Rightarrow> (nat \<times> pystr option) option" where
  "match_at r s = bt r s None (\<lambda>s' g. Some (length s - length s', g))"

text \<open>\<open>re.search(r, s)\<close> as a truth value: is there a match of \<open>r\<close> somewhere in \<open>s\<close>?\<close>

fun re_search :: "re \<Rightarrow> pystr \<Rightarrow> bool" where
  "re_search r [] = (match_at r [] \<noteq> None)"
| "re_search r (c # cs) = (match_at r (c # cs) \<noteq> None \<or> re_search r cs)"

text \<open>
  \<open>re.sub(r, repl, s)\<close>: the matches of \<open>r\<close> in \<open>s\<close>, found from left to right without
  overlap, are replaced.  \<open>repl\<close> computes the replacement from the text of group 1.
  \<open>sub_scan r repl skip s\<close> scans \<open>s\<close>, the first \<open>skip\<close> characters of which belong to
  the match found last.  An empty match inserts the replacement and keeps the character.
\<close>

fun sub_scan :: "re \<Rightarrow> (pystr option \<Rightarrow> pystr) \<Rightarrow> nat \<Rightarrow> pystr \<Rightarrow> pystr" where
  "sub_scan r repl skip [] =
     (case match_at r [] of None \<Rightarrow> [] | Some (n, g) \<Rightarrow> repl g)"
| "sub_scan r repl skip (c # cs) =
     (case skip of
        Suc m \<Rightarrow> sub_scan r repl m cs
      | 0 \<Rightarrow>
         (case match_at r (c # cs) of
            None \<Rightarrow> c # sub_scan r repl 0 cs
          | Some (0, g) \<Rightarrow> repl g @ c # sub_scan r repl 0 cs
          | Some (Suc n, g) \<Rightarrow> repl g @ sub_scan r repl n cs))"

definition re_sub :: "re \<Rightarrow> (pystr option \<Rightarrow> pystr) \<Rightarrow> pystr \<Rightarrow> pystr" where
  "re_sub r repl s = sub_scan r repl 0 s"

text \<open>The replacement templates \<open>''\<close> and \<open>r'\1'\<close>.\<close>

definition repl_empty :: "pystr option \<Rightarrow> pystr" where
  "repl_empty g = []"

definition repl_group1 :: "pystr option \<Rightarrow> pystr" where
  "repl_group1 g = (case g of None \<Rightarrow> [] | Some x \<Rightarrow> x)"

text \<open>\<open>len(re.findall(r, s))\<close>: the number of matches found by the same scan.\<close>

fun findall_scan :: "re \<Rightarrow> nat \<Rightarrow> pystr \<Rightarrow> nat" where
  "findall_scan r skip [] = (case match_at r [] of None \<Rightarrow> 0 | Some m \<Rightarrow> 1)"
| "findall_scan r skip (c # cs) =
     (case skip of
        Suc m \<Rightarrow> findall_scan r m cs
      | 0 \<Rightarrow>
         (case match_at r (c # cs) of
            None \<Rightarrow> findall_scan r 0 cs
          | Some (0, g) \<Rightarrow> 1 + findall_scan r 0 cs
          | Some (Suc n, g) \<Rightarrow> 1 + findall_scan r n cs))"

definition findall_count :: "re \<Rightarrow> pystr \<Rightarrow> nat" where
  "findall_count r s = findall_scan r 0 s"

subsection \<open>Pattern syntax\<close>

definition chr :: "char \<Rightarrow> re" where
  "chr c = Atom (\<lambda>x. x = of_char c)"

definition not_chr :: "char \<Rightarrow> re" where
  "not_chr c = Atom (\<lambda>x. x \<noteq> of_char c)"

definition not_chr2 :: "char \<Rightarrow> char \<Rightarrow> re" where
  "not_chr2 c d = Atom (\<lambda>x. x \<noteq> of_char c \<and> x \<noteq> of_char d)"

definition dot_all :: re where
  "dot_all = Atom (\<lambda>x. True)"

definition space :: re where
  "space = Atom isspace"

fun lit :: "string \<Rightarrow> re" where
  "lit [] = Eps"
| "lit (c # cs) = Seq (chr c) (lit cs)"

definition Plus :: "re \<Rightarrow> re" where
  "Plus r = Seq r (Star r)"

definition Opt :: "re \<Rightarrow> re" where
  "Opt r = Alt r Eps"

text \<open>
  A literal under \<open>re.IGNORECASE\<close>.  Which code points match a pattern letter in that
  mode is decided by the Unicode tables of the interpreter; \<open>ieq x p\<close> says that the
  input character \<open>x\<close> matches the pattern character \<open>p\<close>.
\<close>

fun lit_i :: "(codepoint \<Rightarrow> codepoint \<Rightarrow> bool) \<Rightarrow> string \<Rightarrow> re" where
  "lit_i ieq [] = Eps"
| "lit_i ieq (c # cs) = Seq (Atom (\<lambda>x. ieq x (of_char c))) (lit_i ieq cs)"

section \<open>\<open>generate.py\<close>: cleaning and classifying an article\<close>

subsection \<open>\<open>clean_wikitext\<close>\<close>

text \<open>\<^verbatim>\<open>{{[^}]*}}\<close>\<close>

definition re_template :: re where
  "re_template = Seq (lit ''{{'') (Seq (Star (not_chr CHR ''}'')) (lit ''}}''))"

text \<open>\<^verbatim>\<open>\[\[Kategori:[^\]]*\]\]\<close>\<close>

definition re_category :: re where
  "re_category = Seq (lit ''[[Kategori:'') (Seq (Star (not_chr CHR '']'')) (lit '']]''))"

text \<open>\<^verbatim>\<open>\[http[^\]]*\]\<close>\<close>

definition re_extlink :: re where
  "re_extlink = Seq (lit ''[http'') (Seq (Star (not_chr CHR '']'')) (lit '']''))"

text \<open>\<^verbatim>\<open><!--.*?-->\<close> with \<open>re.DOTALL\<close>\<close>

definition re_comment :: re where
  "re_comment = Seq (lit ''<!--'') (Seq (LazyStar dot_all) (lit ''-->''))"

text \<open>\<^verbatim>\<open><ref[^>]*>.*?</ref>\<close> with \<open>re.DOTALL\<close>\<close>

definition re_ref :: re where
  "re_ref = Seq (lit ''<ref'') (Seq (Star (not_chr CHR ''>'')) (Seq (lit ''>'')
              (Seq (LazyStar dot_all) (lit ''</ref>''))))"

text \<open>\<^verbatim>\<open>\[\[(?:[^|\]]*\|)?([^\]]+)\]\]\<close>\<close>

definition re_link :: re where
  "re_link = Seq (lit ''[['')
              (Seq (Opt (Seq (Star (not_chr2 CHR ''|'' CHR '']'')) (lit ''|'')))
              (Seq (Group (Plus (not_chr CHR '']''))) (lit '']]'')))"

definition clean_wikitext :: "pystr \<Rightarrow> pystr" where
  "clean_wikitext text0 =
     (let text1 = re_sub re_template repl_empty text0;
          text2 = re_sub re_category repl_empty text1;
          text3 = re_sub re_extlink repl_empty text2;
          text4 = re_sub re_comment repl_empty text3;
          text5 = re_sub re_ref repl_empty text4;
          text6 = re_sub re_link repl_group1 text5
      in strip text6)"

subsection \<open>\<open>is_redirect\<close> and \<open>is_meaningful_article\<close>\<close>

text \<open>
  \<open>str.lower()\<close> is given by the Unicode tables of the interpreter and is a parameter
  \<open>lower\<close> of the model.
\<close>

definition is_redirect :: "(pystr \<Rightarrow> pystr) \<Rightarrow> pystr \<Rightarrow> bool" where
  "is_redirect lower text = startswith (lower (strip text)) (str ''#redirect'')"

definition min_content_length :: nat where
  "min_content_length = 300"

definition min_word_count :: nat where
  "min_word_count = 50"

definition is_meaningful_article :: "pystr \<Rightarrow> bool" where
  "is_meaningful_article cont =
     (let word_count = length (split cont)
      in length cont \<ge> min_content_length \<and> word_count \<ge> min_word_count)"

subsection \<open>\<open>is_include_only\<close>\<close>

datatype exn =
    ZeroDivisionError
  | ValueError pystr
  | JSONDecodeError pystr
  | APIError pystr
  | OSError pystr
  | UnicodeEncodeError pystr

definition include_only_starts :: "pystr list" where
  "include_only_starts = [str ''}'', str ''|'', str ''</'']"

text \<open>\<^verbatim>\<open>{{[^}]*}}|\[\[Kategori:[^\]]*\]\]|\s\<close>\<close>

definition re_templates_categories_space :: re where
  "re_templates_categories_space = Alt re_template (Alt re_category space)"

text \<open>
  \<^verbatim>\<open>{{\s*(?:Include only|Kun til inklusion)\<close>,
  \<^verbatim>\<open>{{\s*(?:navbox|infoboks|Infoboks)\<close> and
  \<^verbatim>\<open>{{\s*(?:tabel|Table)\<close>, compiled with \<open>re.IGNORECASE\<close>.
\<close>

definition include_only_templates :: "(codepoint \<Rightarrow> codepoint \<Rightarrow> bool) \<Rightarrow> re list" where
  "include_only_templates ieq =
     [Seq (lit ''{{'') (Seq (Star space)
        (Alt (lit_i ieq ''Include only'') (lit_i ieq ''Kun til inklusion''))),
      Seq (lit ''{{'') (Seq (Star space)
        (Alt (lit_i ieq ''navbox'') (Alt (lit_i ieq ''infoboks'') (lit_i ieq ''Infoboks'')))),
      Seq (lit ''{{'') (Seq (Star space)
        (Alt (lit_i ieq ''tabel'') (lit_i ieq ''Table'')))]"

text \<open>
  The loop over the templates.  \<open>template_ratio\<close> is the quotient of two lengths and
  the division raises \<open>ZeroDivisionError\<close> when the content has no word.  The test
  \<open>template_ratio > 0.8\<close> on the quotient is written on the integers: \<open>5 * n > 4 * d\<close>,
  which is the same test for every text short enough to be held in memory.
\<close>

fun include_only_loop :: "re list \<Rightarrow> pystr \<Rightarrow> exn + bool" where
  "include_only_loop [] cont = Inr False"
| "include_only_loop (template # templates) cont =
     (if re_search template cont then
        (if length (split cont) = 0 then Inl ZeroDivisionError
         else if 5 * findall_count template cont > 4 * length (split cont) then Inr True
         else include_only_loop templates cont)
      else include_only_loop templates cont)"

definition is_include_only :: "(codepoint \<Rightarrow> codepoint \<Rightarrow> bool) \<Rightarrow> pystr \<Rightarrow> exn + bool" where
  "is_include_only ieq cont0 =
     (let cont = lstrip cont0
      in if list_ex (startswith cont) include_only_starts then Inr True
         else
           let cleaned_content = re_sub re_templates_categories_space repl_empty cont
           in if cleaned_content = [] then Inr True
              else include_only_loop (include_only_templates ieq) cont)"

subsection \<open>\<open>process_article\<close>\<close>

text \<open>
  The libraries \<open>process_article\<close> depends on: \<open>str.lower\<close>, the comparison of
  \<open>re.IGNORECASE\<close>, and \<open>mwparserfromhell.parse\<close>.  \<open>mw_parse text\<close> is \<open>None\<close> when
  \<open>mwparserfromhell.parse(text)\<close> raises an exception, and \<open>Some (str(wikicode))\<close> for
  the \<open>wikicode\<close> it returns otherwise.
\<close>

record textlib =
  str_lower :: "pystr \<Rightarrow> pystr"
  re_ieq :: "codepoint \<Rightarrow> codepoint \<Rightarrow> bool"
  mw_parse :: "pystr \<Rightarrow> pystr option"

record article =
  title :: pystr
  content :: pystr

text \<open>
  The result is \<open>Inr None\<close> for \<open>return None\<close> (the article is skipped),
  \<open>Inr (Some a)\<close> for a kept article, and \<open>Inl e\<close> when an exception leaves the
  function.  The calls of \<open>logging\<close> do not change the result and are left out.
\<close>

definition process_article :: "textlib \<Rightarrow> pystr \<Rightarrow> pystr \<Rightarrow> exn + article option" where
  "process_article L ttl text =
     (if is_redirect (str_lower L) text then Inr None
      else
        case mw_parse L text of
          None \<Rightarrow> Inr (Some \<lparr>title = ttl, content = text\<rparr>)
        | Some wikicode \<Rightarrow>
            let cont = clean_wikitext wikicode
            in case is_include_only (re_ieq L) cont of
                 Inl e \<Rightarrow> Inl e
               | Inr True \<Rightarrow> Inr None
               | Inr False \<Rightarrow>
                   if \<not> is_meaningful_article cont then Inr None
                   else Inr (Some \<lparr>title = ttl, content = cont\<rparr>))"

section \<open>\<open>generate.py\<close>: generating the questions\<close>

subsection \<open>The world \<open>generate_questions\<close> acts on\<close>

text \<open>
  A value returned by \<open>json.loads\<close>.  A float keeps its lexeme.
\<close>

datatype json =
    JNull
  | JBool bool
  | JInt int
  | JFloat pystr
  | JStr pystr
  | JArr "json list"
  | JObj "(pystr \<times> json) list"

datatype level = DEBUG | INFO | WARNING | ERROR

text \<open>
  What the function does to the outside, in the order in which it does it: a record
  handed to \<open>logging\<close>, a request sent to the API (its prompt), a call of \<open>time.sleep\<close>
  (its argument).
\<close>

datatype event = Log level pystr | Request pystr | Sleep nat

text \<open>
  The state outside the function: the files of the file system (path to contents) and
  the events so far.  Opening and reading an existing file are taken to succeed.
\<close>

record world =
  files :: "pystr \<rightharpoonup> pystr"
  events :: "event list"

text \<open>
  The prompts sent to the API so far, the arguments of the calls of \<open>time.sleep\<close> so
  far, the records handed to \<open>logging\<close> so far, and the events that are not log records.
\<close>

definition api_calls :: "world \<Rightarrow> pystr list" where
  "api_calls w = List.map_filter (\<lambda>e. case e of Request p \<Rightarrow> Some p | _ \<Rightarrow> None) (events w)"

definition sleeps :: "world \<Rightarrow> nat list" where
  "sleeps w = List.map_filter (\<lambda>e. case e of Sleep n \<Rightarrow> Some n | _ \<Rightarrow> None) (events w)"

definition logs :: "world \<Rightarrow> (level \<times> pystr) list" where
  "logs w = List.map_filter (\<lambda>e. case e of Log l m \<Rightarrow> Some (l, m) | _ \<Rightarrow> None) (events w)"

fun is_log :: "event \<Rightarrow> bool" where
  "is_log (Log l m) = True"
| "is_log (Request p) = False"
| "is_log (Sleep n) = False"

definition actions :: "world \<Rightarrow> event list" where
  "actions w = filter (\<lambda>e. \<not> is_log e) (events w)"

text \<open>
  The outcome of \<open>open(path, 'w', encoding='utf-8')\<close> followed by \<open>f.write(data)\<close> and the
  close of the file: \<open>open\<close> raises and no file is created or changed; or the file is
  opened, hence created or emptied, and the write or the close raises, leaving some
  contents in the file; or the data are written.
\<close>

datatype write_result = OpenRaises exn | WriteRaises exn pystr | Written

text \<open>
  The libraries \<open>generate_questions\<close> depends on.
  \<^item> \<open>md5_hexdigest s\<close> is \<open>hashlib.md5(s.encode()).hexdigest()\<close>.
  \<^item> \<open>json_loads s\<close> is \<open>json.loads(s)\<close>, \<open>Inl e\<close> when it raises \<open>e\<close>.
  \<^item> \<open>json_dumps v\<close> is \<open>json.dumps(v, ensure_ascii=False, indent=2)\<close>.
  \<^item> \<open>chat_completion n prompt\<close> is the outcome of the call of
    \<open>client.chat.completions.create\<close> that \<open>n\<close> calls precede, up to the read of
    \<open>response.choices[0].message.content\<close>: \<open>Inl e\<close> when an exception \<open>e\<close> is raised,
    \<open>Inr None\<close> when the content is \<open>None\<close>, \<open>Inr (Some body)\<close> otherwise.
  \<^item> \<open>open_write n path data\<close> is the outcome of writing \<open>data\<close> to the file \<open>path\<close> in
    the attempt whose request \<open>n\<close> requests precede.
\<close>

record genlib =
  md5_hexdigest :: "pystr \<Rightarrow> pystr"
  json_loads :: "pystr \<Rightarrow> exn + json"
  json_dumps :: "json \<Rightarrow> pystr"
  chat_completion :: "nat \<Rightarrow> pystr \<Rightarrow> exn + pystr option"
  open_write :: "nat \<Rightarrow> pystr \<Rightarrow> pystr \<Rightarrow> write_result"

definition logging :: "level \<Rightarrow> pystr \<Rightarrow> world \<Rightarrow> world" where
  "logging lvl msg w = w\<lparr>events := events w @ [Log lvl msg]\<rparr>"

definition time_sleep :: "nat \<Rightarrow> world \<Rightarrow> world" where
  "time_sleep n w = w\<lparr>events := events w @ [Sleep n]\<rparr>"

definition send_request :: "pystr \<Rightarrow> world \<Rightarrow> world" where
  "send_request prompt w = w\<lparr>events := events w @ [Request prompt]\<rparr>"

text \<open>
  The \<open>with open(cache_file, 'w', ...)\<close> block: the exception it raises, if any, and the
  world it leaves.
\<close>

definition write_file :: "genlib \<Rightarrow> nat \<Rightarrow> pystr \<Rightarrow> pystr \<Rightarrow> world \<Rightarrow> exn option \<times> world" where
  "write_file G n path data w =
     (case open_write G n path data of
        OpenRaises e \<Rightarrow> (Some e, w)
      | WriteRaises e left \<Rightarrow> (Some e, w\<lparr>files := (files w)(path \<mapsto> left)\<rparr>)
      | Written \<Rightarrow> (None, w\<lparr>files := (files w)(path \<mapsto> data)\<rparr>))"

text \<open>\<open>str(e)\<close> of an exception and \<open>str(n)\<close> of a natural number.\<close>

fun exn_str :: "exn \<Rightarrow> pystr" where
  "exn_str ZeroDivisionError = str ''division by zero''"
| "exn_str (ValueError msg) = msg"
| "exn_str (JSONDecodeError msg) = msg"
| "exn_str (APIError msg) = msg"
| "exn_str (OSError msg) = msg"
| "exn_str (UnicodeEncodeError msg) = msg"

function nat_str :: "nat \<Rightarrow> pystr" where
  "nat_str n = (if n < 10 then [48 + n] else nat_str (n div 10) @ [48 + n mod 10])"
  by pat_completeness auto
termination
  by (relation "measure id") auto

declare nat_str.simps [simp del]

text \<open>\<open>os.path.join(a, b)\<close> of \<open>posixpath\<close>.\<close>

definition path_join :: "pystr \<Rightarrow> pystr \<Rightarrow> pystr" where
  "path_join a b =
     (if startswith b (str ''/'') then b
      else if a = [] \<or> last a = of_char CHR ''/'' then a @ b
      else a @ str ''/'' @ b)"

subsection \<open>\<open>generate_questions\<close>\<close>

definition cache_file_of :: "genlib \<Rightarrow> article \<Rightarrow> pystr \<Rightarrow> pystr" where
  "cache_file_of G art cache_dir =
     (let article_hash = md5_hexdigest G (title art @ content art)
      in path_join cache_dir (article_hash @ str ''.json''))"

definition build_prompt :: "article \<Rightarrow> pystr" where
  "build_prompt art = concat
     [[0xa],
      str ''    Givet f'', [0xf8], str ''lgende Wikipedia-artikel, skal du generere 5 sp'',
      [0xf8], str ''rgsm'', [0xe5], str ''l og deres svar baseret p'', [0xe5],
      str '' indholdet. '', [0xa],
      str ''    Svaret skal st'', [0xe5],
      str '' direkte i den givne artikel, uden brug af anden viden. Svaret skal v'', [0xe6],
      str ''re kort, gerne kun 1 til 2 ord eller et tal.'', [0xa],
      str ''    Sp'', [0xf8], str ''rgsm'', [0xe5], str ''let m'', [0xe5], str '' gerne v'',
      [0xe6], str ''re sv'', [0xe6], str ''rt, og omformuler gerne ord i teksten.'', [0xa],
      str ''    Formater outputtet som en liste af '', [0x60], str ''dict'', [0x60],
      str ''s, hvor hver '', [0x60], str ''dict'', [0x60], str '' indeholder en '', [0x27],
      str ''sp'', [0xf8], str ''rgsm'', [0xe5], str ''l'', [0x27], str '' og en '', [0x27],
      str ''svar'', [0x27], str '' n'', [0xf8], str ''gle.'', [0xa, 0xa],
      str ''    Titel: '', title art, [0xa],
      str ''    Indhold: '', take 6000 (content art), [0xa, 0xa],
      str ''    Output kun listen af '', [0x60], str ''dict'', [0x60],
      str ''s, uden yderligere tekst. S'', [0xf8], str ''rg for at b'', [0xe5],
      str ''de sp'', [0xf8], str ''rgsm'', [0xe5], str ''l og svar er p'', [0xe5],
      str '' dansk.'', [0xa],
      str ''    '']"

definition max_retries :: nat where
  "max_retries = 3"

text \<open>
  One API request and the parse of its answer: the part of the \<open>try\<close> block before the
  cache file is written.  An exception of the client, the \<open>ValueError\<close> for a missing
  content and an exception of \<open>json.loads\<close> all end in the \<open>except\<close> branch.
\<close>

definition request_qa_pairs :: "genlib \<Rightarrow> nat \<Rightarrow> pystr \<Rightarrow> exn + json" where
  "request_qa_pairs G n prompt =
     (case chat_completion G n prompt of
        Inl e \<Rightarrow> Inl e
      | Inr None \<Rightarrow> Inl (ValueError (str ''Empty response from API''))
      | Inr (Some body) \<Rightarrow> json_loads G body)"

text \<open>The messages handed to \<open>logging\<close>.\<close>

definition msg_generating :: "article \<Rightarrow> pystr" where
  "msg_generating art = str ''Generating questions for article: '' @ title art"

definition msg_loading :: "article \<Rightarrow> pystr" where
  "msg_loading art = str ''Loading cached questions for article: '' @ title art"

definition msg_sending :: "article \<Rightarrow> nat \<Rightarrow> pystr" where
  "msg_sending art attempt =
     str ''Sending API request for article: '' @ title art @
     str '' (Attempt '' @ nat_str (attempt + 1) @ str '')''"

definition msg_cached :: "article \<Rightarrow> pystr" where
  "msg_cached art = str ''Generated and cached questions for article: '' @ title art"

definition msg_error :: "exn \<Rightarrow> pystr" where
  "msg_error e = str ''Error occurred while generating Q&A pairs: '' @ exn_str e"

definition msg_failed :: "article \<Rightarrow> pystr" where
  "msg_failed art =
     str ''Failed to generate Q&A pairs after '' @ nat_str max_retries @
     str '' attempts for article: '' @ title art"

text \<open>The \<open>except Exception as e\<close> branch of the attempt numbered \<open>attempt\<close>.\<close>

definition except_branch :: "exn \<Rightarrow> nat \<Rightarrow> world \<Rightarrow> world" where
  "except_branch e attempt w =
     (let w1 = logging WARNING (msg_error e) w
      in if attempt < max_retries - 1 then time_sleep 2 w1 else w1)"

text \<open>
  The loop \<open>for attempt in range(max_retries)\<close>, over the attempts still to make.  It
  yields \<open>Some qa_pairs\<close> when an attempt returns, \<open>None\<close> when the loop runs out.  The
  request, the parse and the write of the cache file are all inside the \<open>try\<close>: an
  exception of any of them leads to the \<open>except\<close> branch and to the next attempt.
\<close>

primrec attempt_loop :: "genlib \<Rightarrow> article \<Rightarrow> pystr \<Rightarrow> pystr \<Rightarrow> nat list \<Rightarrow> world \<Rightarrow> json option \<times> world" where
  "attempt_loop G art cache_file prompt [] w = (None, w)"
| "attempt_loop G art cache_file prompt (attempt # rest) w =
     (let w1 = logging DEBUG (msg_sending art attempt) w;
          n = length (api_calls w1);
          w2 = send_request prompt w1
      in case request_qa_pairs G n prompt of
           Inl e \<Rightarrow> attempt_loop G art cache_file prompt rest (except_branch e attempt w2)
         | Inr qa_pairs \<Rightarrow>
             (case write_file G n cache_file (json_dumps G qa_pairs) w2 of
                (Some e, w3) \<Rightarrow>
                  attempt_loop G art cache_file prompt rest (except_branch e attempt w3)
              | (None, w3) \<Rightarrow> (Some qa_pairs, logging DEBUG (msg_cached art) w3)))"

text \<open>
  The result is the returned value, or \<open>Inl e\<close> when the exception \<open>e\<close> leaves the
  function, and the world after the call.
\<close>

definition generate_questions :: "genlib \<Rightarrow> article \<Rightarrow> pystr \<Rightarrow> world \<Rightarrow> (exn + json) \<times> world" where
  "generate_questions G art cache_dir w0 =
     (let w1 = logging DEBUG (msg_generating art) w0;
          cache_file = cache_file_of G art cache_dir
      in case files w1 cache_file of
           Some data \<Rightarrow>
             let w2 = logging DEBUG (msg_loading art) w1
             in (json_loads G data, w2)
         | None \<Rightarrow>
             let prompt = build_prompt art
             in case attempt_loop G art cache_file prompt [0..<max_retries] w1 of
                  (Some qa_pairs, w2) \<Rightarrow> (Inr qa_pairs, w2)
                | (None, w2) \<Rightarrow> (Inr (JArr []), logging ERROR (msg_failed art) w2))"

section \<open>Notions used to state the properties\<close>

text \<open>
  The language of a pattern: \<open>lang r u\<close> holds when the text \<open>u\<close> as a whole is matched
  by \<open>r\<close>.  The matcher \<open>bt\<close> is shown below to find a match at the front of a string
  exactly when some prefix of the string is in the language of the pattern.
\<close>

inductive lang :: "re \<Rightarrow> pystr \<Rightarrow> bool" where
  lang_Atom: "P c \<Longrightarrow> lang (Atom P) [c]"
| lang_Eps: "lang Eps []"
| lang_Seq: "lang a u \<Longrightarrow> lang b v \<Longrightarrow> lang (Seq a b) (u @ v)"
| lang_AltL: "lang a u \<Longrightarrow> lang (Alt a b) u"
| lang_AltR: "lang b u \<Longrightarrow> lang (Alt a b) u"
| lang_StarNil: "lang (Star a) []"
| lang_StarStep: "lang a u \<Longrightarrow> lang (Star a) v \<Longrightarrow> lang (Star a) (u @ v)"
| lang_LazyNil: "lang (LazyStar a) []"
| lang_LazyStep: "lang a u \<Longrightarrow> lang (LazyStar a) v \<Longrightarrow> lang (LazyStar a) (u @ v)"
| lang_Group: "lang a u \<Longrightarrow> lang (Group a) u"

text \<open>
  A text contains no markup when none of the six patterns of \<open>clean_wikitext\<close> is found
  in it, that is, when \<open>re.search\<close> returns \<open>None\<close> for each of them.
\<close>

definition cleaner_patterns :: "re list" where
  "cleaner_patterns = [re_template, re_category, re_extlink, re_comment, re_ref, re_link]"

definition no_markup :: "pystr \<Rightarrow> bool" where
  "no_markup x \<longleftrightarrow> \<not> list_ex (\<lambda>r. re_search r x) cleaner_patterns"



text \<open>Every pattern of \<open>generate.py\<close>.\<close>

definition all_patterns :: "(codepoint \<Rightarrow> codepoint \<Rightarrow> bool) \<Rightarrow> re list" where
  "all_patterns ieq =
     cleaner_patterns @ [re_templates_categories_space] @ include_only_templates ieq"

text \<open>The characters of a hexadecimal digest.\<close>

definition hexdigit :: "codepoint \<Rightarrow> bool" where
  "hexdigit c \<longleftrightarrow> (0x30 \<le> c \<and> c \<le> 0x39) \<or> (0x61 \<le> c \<and> c \<le> 0x66)"

text \<open>
  The API request that \<open>n\<close> requests precede fails: the client raises (a transport
  error), the response has no content (an empty response), or the body does not parse.
\<close>

definition attempt_fails :: "genlib \<Rightarrow> nat \<Rightarrow> pystr \<Rightarrow> bool" where
  "attempt_fails G n prompt =
     (case chat_completion G n prompt of
        Inl e \<Rightarrow> True
      | Inr None \<Rightarrow> True
      | Inr (Some body) \<Rightarrow> (case json_loads G body of Inl e \<Rightarrow> True | Inr v \<Rightarrow> False))"

section \<open>Example inputs\<close>

text \<open>
  Instances of the libraries and of the world, used to run the functions on concrete
  inputs.  \<open>ascii_lower\<close> lowers the letters \<open>A\<close> to \<open>Z\<close>; \<open>textlib_roundtrip\<close> has a
  parser whose \<open>str(wikicode)\<close> is the parsed text, \<open>textlib_parse_error\<close> a parser that
  raises on every text.
\<close>

definition ascii_lower :: "pystr \<Rightarrow> pystr" where
  "ascii_lower s = map (\<lambda>c. if 0x41 \<le> c \<and> c \<le> 0x5A then c + 0x20 else c) s"

definition ascii_ieq :: "codepoint \<Rightarrow> codepoint \<Rightarrow> bool" where
  "ascii_ieq x p \<longleftrightarrow> ascii_lower [x] = ascii_lower [p]"

definition textlib_roundtrip :: textlib where
  "textlib_roundtrip = \<lparr>str_lower = ascii_lower, re_ieq = ascii_ieq, mw_parse = Some\<rparr>"

definition textlib_parse_error :: textlib where
  "textlib_parse_error =
     \<lparr>str_lower = ascii_lower, re_ieq = ascii_ieq, mw_parse = (\<lambda>wikitext. None)\<rparr>"

definition demo_text :: pystr where
  "demo_text = str (''Aarhus er Danmarks naeststoerste by og ligger ved Jyllands oestkyst. '' @
     ''Byen har en stor havn og et universitet med mange studerende. Midt i '' @
     ''byen ligger domkirken, og i naerheden finder man teatret og raadhuset.'' @
     '' Hvert aar kommer der mange turister for at se museerne og den gamle '' @
     ''by, som viser livet i gamle dage. Fra havnen sejler der faerger til '' @
     ''flere andre byer.'')"

definition demo_article :: article where
  "demo_article = \<lparr>title = str ''Aarhus'', content = demo_text\<rparr>"

definition demo_article_split :: article where
  "demo_article_split = \<lparr>title = str ''Aar'', content = str ''hus'' @ demo_text\<rparr>"

text \<open>Five question/answer records and the response body that stands for them.\<close>

definition qa_record :: "string \<Rightarrow> string \<Rightarrow> json" where
  "qa_record q a =
     JObj [(str ''sp'' @ [0xf8] @ str ''rgsm'' @ [0xe5] @ str ''l'', JStr (str q)),
           (str ''svar'', JStr (str a))]"

definition demo_qa_pairs :: json where
  "demo_qa_pairs = JArr
     [qa_record ''Hvad er Aarhus?'' ''En by'',
      qa_record ''Hvor ligger Aarhus?'' ''Jylland'',
      qa_record ''Hvad ligger midt i byen?'' ''Domkirken'',
      qa_record ''Hvem kommer hvert aar?'' ''Turister'',
      qa_record ''Hvad sejler fra havnen?'' ''Faerger'']"

definition demo_body :: pystr where
  "demo_body = str ''[five records]''"

text \<open>
  A response whose last answer holds a lone surrogate: the body has the escape
  \<^verbatim>\<open>\ud83d\<close>, which \<open>json.loads\<close> accepts and turns into the code point U+D83D, and
  \<open>json.dumps\<close> with \<open>ensure_ascii=False\<close> writes that code point as it is.
\<close>

definition surrogate_qa_pairs :: json where
  "surrogate_qa_pairs = JArr
     [qa_record ''Hvad er Aarhus?'' ''En by'',
      qa_record ''Hvor ligger Aarhus?'' ''Jylland'',
      qa_record ''Hvad ligger midt i byen?'' ''Domkirken'',
      qa_record ''Hvem kommer hvert aar?'' ''Turister'',
      JObj [(str ''sp'' @ [0xf8] @ str ''rgsm'' @ [0xe5] @ str ''l'',
             JStr (str ''Hvad sejler fra havnen?'')),
            (str ''svar'', JStr (str ''Faerger '' @ [0xD83D]))]]"

definition surrogate_body :: pystr where
  "surrogate_body = str ''[five records, a lone surrogate escape in the last]''"

definition surrogate_dump :: pystr where
  "surrogate_dump = str ''[five records, '' @ [0xD83D] @ str '' in the last]''"

definition toy_md5 :: "pystr \<Rightarrow> pystr" where
  "toy_md5 s = nat_str (length s)"

definition toy_json_loads :: "pystr \<Rightarrow> exn + json" where
  "toy_json_loads s =
     (if s = demo_body then Inr demo_qa_pairs
      else if s = surrogate_body then Inr surrogate_qa_pairs
      else Inl (JSONDecodeError (str ''Expecting value: line 1 column 1 (char 0)'')))"

definition toy_json_dumps :: "json \<Rightarrow> pystr" where
  "toy_json_dumps v =
     (if v = demo_qa_pairs then demo_body
      else if v = surrogate_qa_pairs then surrogate_dump
      else str ''null'')"

text \<open>
  Writing a text file with \<open>encoding='utf-8'\<close> in a directory that exists and can be
  written: a text with a lone surrogate, a code point from U+D800 to U+DFFF, cannot be
  encoded, so the file is opened, the write raises \<open>UnicodeEncodeError\<close> and the file
  stays empty.  In a directory that does not exist \<open>open\<close> raises \<open>FileNotFoundError\<close>,
  an \<open>OSError\<close>.
\<close>

definition has_surrogate :: "pystr \<Rightarrow> bool" where
  "has_surrogate s = list_ex (\<lambda>c. 0xD800 \<le> c \<and> c \<le> 0xDFFF) s"

definition utf8_open_write :: "nat \<Rightarrow> pystr \<Rightarrow> pystr \<Rightarrow> write_result" where
  "utf8_open_write n path data =
     (if has_surrogate data
      then WriteRaises (UnicodeEncodeError (str ''surrogates not allowed'')) []
      else Written)"

definition missing_dir_open_write :: "nat \<Rightarrow> pystr \<Rightarrow> pystr \<Rightarrow> write_result" where
  "missing_dir_open_write n path data =
     OpenRaises (OSError (str ''[Errno 2] No such file or directory''))"

text \<open>
  An API that raises on every request; one that raises on the first request and answers
  the later ones with the five records; one that answers every request with the five
  records of which the last holds a lone surrogate; and one that answers every request
  with the five records while the cache directory does not exist.
\<close>

definition genlib_down :: genlib where
  "genlib_down =
     \<lparr>md5_hexdigest = toy_md5, json_loads = toy_json_loads, json_dumps = toy_json_dumps,
      chat_completion = (\<lambda>n prompt. Inl (APIError (str ''Connection error.''))),
      open_write = utf8_open_write\<rparr>"

definition genlib_flaky :: genlib where
  "genlib_flaky =
     \<lparr>md5_hexdigest = toy_md5, json_loads = toy_json_loads, json_dumps = toy_json_dumps,
      chat_completion = (\<lambda>n prompt. if n = 0 then Inl (APIError (str ''Connection error.''))
                                      else Inr (Some demo_body)),
      open_write = utf8_open_write\<rparr>"

definition genlib_surrogate :: genlib where
  "genlib_surrogate =
     \<lparr>md5_hexdigest = toy_md5, json_loads = toy_json_loads, json_dumps = toy_json_dumps,
      chat_completion = (\<lambda>n prompt. Inr (Some surrogate_body)),
      open_write = utf8_open_write\<rparr>"

definition genlib_missing_dir :: genlib where
  "genlib_missing_dir =
     \<lparr>md5_hexdigest = toy_md5, json_loads = toy_json_loads, json_dumps = toy_json_dumps,
      chat_completion = (\<lambda>n prompt. Inr (Some demo_body)),
      open_write = missing_dir_open_write\<rparr>"

definition world_empty :: world where
  "world_empty = \<lparr>files = Map.empty, events = []\<rparr>"

definition world_cached :: world where
  "world_cached =
     world_empty\<lparr>files := [cache_file_of genlib_down demo_article (str ''qa_cache'') \<mapsto> demo_body]\<rparr>"

definition world_corrupt :: world where
  "world_corrupt =
     world_empty\<lparr>files := [cache_file_of genlib_down demo_article (str ''qa_cache'') \<mapsto> str ''[{'']\<rparr>"

section \<open>The matcher and the language of a pattern\<close>

lemma bt_sound:
  "bt r s g k = Some x \<Longrightarrow> \<exists>u s' g'. s = u @ s' \<and> lang r u \<and> k s' g' = Some x"
proof (induction r s g k arbitrary: x rule: bt.induct)
  case (1 P s g k)
  then obtain c cs where "s = c # cs" "P c" "k cs g = Some x"
    by (cases s) (auto split: if_splits)
  then have "s = [c] @ cs \<and> lang (Atom P) [c] \<and> k cs g = Some x"
    by (simp add: lang_Atom)
  then show ?case by blast
next
  case (2 s g k)
  then show ?case using lang_Eps by fastforce
next
  case (3 a b s g k)
  from "3.IH"(2)[OF "3.prems"[simplified]]
  obtain u s' g' where s: "s = u @ s'" and a: "lang a u" and b: "bt b s' g' k = Some x"
    by blast
  from "3.IH"(1)[OF b] obtain v s'' g'' where "s' = v @ s''" "lang b v" "k s'' g'' = Some x"
    by blast
  with s a have "s = (u @ v) @ s'' \<and> lang (Seq a b) (u @ v) \<and> k s'' g'' = Some x"
    by (simp add: lang_Seq)
  then show ?case by blast
next
  case (4 a b s g k)
  show ?case
  proof (cases "bt a s g k")
    case None
    with "4.prems" have "bt b s g k = Some x" by simp
    from "4.IH"(2)[OF None this] show ?thesis using lang_AltR by blast
  next
    case (Some y)
    with "4.prems" have "bt a s g k = Some x" by simp
    from "4.IH"(1)[OF this] show ?thesis using lang_AltL by blast
  qed
next
  case (5 a s g k)
  let ?K = "\<lambda>s' g'. if length s' < length s then bt (Star a) s' g' k else None"
  show ?case
  proof (cases "bt a s g ?K")
    case None
    with "5.prems" have "k s g = Some x" by simp
    then show ?thesis using lang_StarNil by fastforce
  next
    case (Some y)
    with "5.prems" have "bt a s g ?K = Some x" by simp
    from "5.IH"(2)[OF this] obtain u s' g' where s: "s = u @ s'" and a: "lang a u"
      and K: "?K s' g' = Some x" by blast
    from K have len: "length s' < length s" and st: "bt (Star a) s' g' k = Some x"
      by (auto split: if_splits)
    from "5.IH"(1)[OF len st] obtain v s'' g'' where "s' = v @ s''" "lang (Star a) v" "k s'' g'' = Some x"
      by blast
    with s a have "s = (u @ v) @ s'' \<and> lang (Star a) (u @ v) \<and> k s'' g'' = Some x"
      by (simp add: lang_StarStep)
    then show ?thesis by blast
  qed
next
  case (6 a s g k)
  let ?K = "\<lambda>s' g'. if length s' < length s then bt (LazyStar a) s' g' k else None"
  show ?case
  proof (cases "k s g")
    case (Some y)
    with "6.prems" have "k s g = Some x" by simp
    then show ?thesis using lang_LazyNil by fastforce
  next
    case None
    with "6.prems" have "bt a s g ?K = Some x" by simp
    from "6.IH"(2)[OF None this] obtain u s' g' where s: "s = u @ s'" and a: "lang a u"
      and K: "?K s' g' = Some x" by blast
    from K have len: "length s' < length s" and st: "bt (LazyStar a) s' g' k = Some x"
      by (auto split: if_splits)
    from "6.IH"(1)[OF None len st] obtain v s'' g'' where "s' = v @ s''" "lang (LazyStar a) v" "k s'' g'' = Some x"
      by blast
    with s a have "s = (u @ v) @ s'' \<and> lang (LazyStar a) (u @ v) \<and> k s'' g'' = Some x"
      by (simp add: lang_LazyStep)
    then show ?thesis by blast
  qed
next
  case (7 a s g k)
  from "7.IH"[OF "7.prems"[simplified]] show ?case using lang_Group by blast
qed

lemma bt_complete:
  "lang r u \<Longrightarrow> (\<And>g'. k s' g' \<noteq> None) \<Longrightarrow> bt r (u @ s') g k \<noteq> None"
proof (induction r u arbitrary: g k s' rule: lang.induct)
  case (lang_Atom P c)
  then show ?case by simp
next
  case lang_Eps
  then show ?case by simp
next
  case (lang_Seq a u b v)
  have "\<And>g'. bt b (v @ s') g' k \<noteq> None"
    using lang_Seq.IH(2) lang_Seq.prems by blast
  from lang_Seq.IH(1)[of "\<lambda>t g'. bt b t g' k" "v @ s'" g, OF this]
  show ?case by simp
next
  case (lang_AltL a u b)
  have "bt a (u @ s') g k \<noteq> None"
    using lang_AltL.IH lang_AltL.prems by blast
  then show ?case by (auto split: option.splits)
next
  case (lang_AltR b u a)
  have "bt b (u @ s') g k \<noteq> None"
    using lang_AltR.IH lang_AltR.prems by blast
  then show ?case by (auto split: option.splits)
next
  case (lang_StarNil a)
  then show ?case by (auto split: option.splits)
next
  case (lang_StarStep a u v)
  have rest: "\<And>g'. bt (Star a) (v @ s') g' k \<noteq> None"
    using lang_StarStep.IH(2) lang_StarStep.prems by blast
  show ?case
  proof (cases "u = []")
    case True
    with rest show ?thesis by simp
  next
    case False
    let ?s = "(u @ v) @ s'"
    let ?K = "\<lambda>t g'. if length t < length ?s then bt (Star a) t g' k else None"
    have "\<And>g'. ?K (v @ s') g' \<noteq> None"
      using False rest by simp
    from lang_StarStep.IH(1)[of ?K "v @ s'" g, OF this]
    show ?thesis by (auto split: option.splits)
  qed
next
  case (lang_LazyNil a)
  show ?case
    using lang_LazyNil.prems[of g] by (cases "k s' g") auto
next
  case (lang_LazyStep a u v)
  have rest: "\<And>g'. bt (LazyStar a) (v @ s') g' k \<noteq> None"
    using lang_LazyStep.IH(2) lang_LazyStep.prems by blast
  show ?case
  proof (cases "u = []")
    case True
    with rest show ?thesis by simp
  next
    case False
    let ?s = "(u @ v) @ s'"
    let ?K = "\<lambda>t g'. if length t < length ?s then bt (LazyStar a) t g' k else None"
    have "\<And>g'. ?K (v @ s') g' \<noteq> None"
      using False rest by simp
    from lang_LazyStep.IH(1)[of ?K "v @ s'" g, OF this]
    show ?thesis by (auto split: option.splits)
  qed
next
  case (lang_Group a u)
  have "\<And>g'. (\<lambda>t g'. k t (Some (take (length (u @ s') - length t) (u @ s')))) s' g' \<noteq> None"
    using lang_Group.prems by simp
  from lang_Group.IH[of "\<lambda>t g'. k t (Some (take (length (u @ s') - length t) (u @ s')))" s' g, OF this]
  show ?case by simp
qed

lemma match_at_iff: "match_at r s \<noteq> None \<longleftrightarrow> (\<exists>u s'. s = u @ s' \<and> lang r u)"
proof
  assume "match_at r s \<noteq> None"
  then obtain x where "bt r s None (\<lambda>s' g. Some (length s - length s', g)) = Some x"
    by (auto simp: match_at_def)
  from bt_sound[OF this] show "\<exists>u s'. s = u @ s' \<and> lang r u" by blast
next
  assume "\<exists>u s'. s = u @ s' \<and> lang r u"
  then obtain u s' where s: "s = u @ s'" and l: "lang r u" by blast
  have "bt r (u @ s') None (\<lambda>t g. Some (length s - length t, g)) \<noteq> None"
    by (rule bt_complete[OF l]) simp
  with s show "match_at r s \<noteq> None" by (simp add: match_at_def)
qed

lemma match_at_append: "match_at r u \<noteq> None \<Longrightarrow> match_at r (u @ v) \<noteq> None"
  unfolding match_at_iff by (metis append.assoc)

lemma re_search_iff: "re_search r s \<longleftrightarrow> (\<exists>p t. s = p @ t \<and> match_at r t \<noteq> None)"
proof (induction s)
  case Nil
  then show ?case by simp
next
  case (Cons c cs)
  show ?case
  proof
    assume "re_search r (c # cs)"
    then consider "match_at r (c # cs) \<noteq> None" | "re_search r cs" by auto
    then show "\<exists>p t. c # cs = p @ t \<and> match_at r t \<noteq> None"
    proof cases
      case 1
      then show ?thesis by (intro exI[of _ "[]"] exI[of _ "c # cs"]) simp
    next
      case 2
      with Cons obtain p t where "cs = p @ t" "match_at r t \<noteq> None" by blast
      then show ?thesis by (intro exI[of _ "c # p"] exI[of _ t]) simp
    qed
  next
    assume "\<exists>p t. c # cs = p @ t \<and> match_at r t \<noteq> None"
    then obtain p t where pt: "c # cs = p @ t" and m: "match_at r t \<noteq> None" by blast
    show "re_search r (c # cs)"
    proof (cases p)
      case Nil
      with pt have "t = c # cs" by simp
      with m show ?thesis by simp
    next
      case (Cons d p')
      with pt have "cs = p' @ t" by simp
      with m Cons.IH show ?thesis by auto
    qed
  qed
qed

lemma re_search_substring:
  assumes "re_search r m"
  shows "re_search r (l @ m @ n)"
proof -
  from assms obtain p t where m: "m = p @ t" and t: "match_at r t \<noteq> None"
    unfolding re_search_iff by blast
  from match_at_append[OF t] have "match_at r (t @ n) \<noteq> None" .
  moreover have "l @ m @ n = (l @ p) @ (t @ n)" using m by simp
  ultimately show ?thesis unfolding re_search_iff by blast
qed

lemma sub_scan_no_match:
  "\<not> re_search r s \<Longrightarrow> sub_scan r repl 0 s = s"
  by (induction s) (auto split: option.splits)

lemma re_sub_no_match: "\<not> re_search r s \<Longrightarrow> re_sub r repl s = s"
  by (simp add: re_sub_def sub_scan_no_match)

lemma match_at_first_chr:
  "match_at (Seq (Seq (chr c) x) r) s \<noteq> None \<Longrightarrow> of_char c \<in> set s"
  by (cases s) (auto simp: match_at_def chr_def split: if_splits)

lemma re_search_first_chr:
  "re_search (Seq (Seq (chr c) x) r) s \<Longrightarrow> of_char c \<in> set s"
proof (induction s)
  case Nil
  then show ?case using match_at_first_chr[of c x r "[]"] by simp
next
  case (Cons a s)
  then show ?case using match_at_first_chr[of c x r "a # s"] by auto
qed

text \<open>
  No pattern of \<open>generate.py\<close> matches the empty string, so the scans of \<open>re.sub\<close> and
  \<open>re.findall\<close> never meet an empty match.
\<close>

inductive_cases lang_AtomE: "lang (Atom P) u"
inductive_cases lang_SeqE: "lang (Seq a b) u"
inductive_cases lang_AltE: "lang (Alt a b) u"

lemma match_at_length:
  assumes "match_at r s = Some (n, g)"
  shows "\<exists>u s'. s = u @ s' \<and> lang r u \<and> n = length u"
proof -
  from assms have "bt r s None (\<lambda>s' g. Some (length s - length s', g)) = Some (n, g)"
    by (simp add: match_at_def)
  from bt_sound[OF this] obtain u s' where "s = u @ s'" "lang r u" "n = length s - length s'"
    by auto
  then show ?thesis by auto
qed

lemma lang_first_chr_nonempty: "lang (Seq (Seq (chr c) x) r) u \<Longrightarrow> u \<noteq> []"
  by (auto simp: chr_def elim!: lang_SeqE lang_AtomE)

lemma lang_space_nonempty: "lang space u \<Longrightarrow> u \<noteq> []"
  by (auto simp: space_def elim!: lang_AtomE)

lemma lang_patterns_nonempty:
  assumes "r \<in> set (all_patterns ieq)" "lang r u"
  shows "u \<noteq> []"
proof -
  have first: "\<And>c x r'. r = Seq (Seq (chr c) x) r' \<Longrightarrow> u \<noteq> []"
    using assms(2) lang_first_chr_nonempty by blast
  from assms(1) consider "\<exists>c x r'. r = Seq (Seq (chr c) x) r'" | "r = re_templates_categories_space"
    by (auto simp: all_patterns_def cleaner_patterns_def include_only_templates_def
          re_template_def re_category_def re_extlink_def re_comment_def re_ref_def re_link_def)
  then show ?thesis
  proof cases
    case 1
    with first show ?thesis by blast
  next
    case 2
    with assms(2) show ?thesis
      by (auto simp: re_templates_categories_space_def re_template_def re_category_def
            elim!: lang_AltE dest: lang_first_chr_nonempty lang_space_nonempty)
  qed
qed

lemma match_at_patterns_nonempty:
  "r \<in> set (all_patterns ieq) \<Longrightarrow> match_at r s = Some (n, g) \<Longrightarrow> 0 < n"
  using match_at_length lang_patterns_nonempty by fastforce

section \<open>Stripping and splitting\<close>

lemma split_from_Nil_iff: "split_from cur s = [] \<longleftrightarrow> cur = [] \<and> (\<forall>c\<in>set s. isspace c)"
  by (induction s arbitrary: cur) auto

lemma split_Nil_iff: "split s = [] \<longleftrightarrow> (\<forall>c\<in>set s. isspace c)"
  by (simp add: split_def split_from_Nil_iff)

lemma rstrip_prefix: "\<exists>w. s = rstrip s @ w \<and> (\<forall>c\<in>set w. isspace c)"
proof -
  let ?w = "rev (takeWhile isspace (rev s))"
  have "s = rev (takeWhile isspace (rev s) @ dropWhile isspace (rev s))"
    by (simp only: takeWhile_dropWhile_id rev_rev_ident)
  then have "s = rstrip s @ ?w" by (simp only: rev_append rstrip_def)
  moreover have "\<forall>c\<in>set ?w. isspace c" by (auto dest: set_takeWhileD)
  ultimately show ?thesis by blast
qed

lemma lstrip_suffix: "\<exists>w. s = w @ lstrip s"
  by (metis lstrip_def takeWhile_dropWhile_id)

lemma strip_decomp:
  "\<exists>l n. x = l @ strip x @ n \<and> lstrip x = strip x @ n \<and> (\<forall>c\<in>set n. isspace c)"
proof -
  obtain l where l: "x = l @ lstrip x" using lstrip_suffix by blast
  obtain n where n: "lstrip x = rstrip (lstrip x) @ n" "\<forall>c\<in>set n. isspace c"
    using rstrip_prefix by blast
  from l n have "x = l @ strip x @ n" by (simp add: strip_def)
  with n have "x = l @ strip x @ n \<and> lstrip x = strip x @ n \<and> (\<forall>c\<in>set n. isspace c)"
    by (simp add: strip_def)
  then show ?thesis by blast
qed

lemma lstrip_id: "s = [] \<or> \<not> isspace (hd s) \<Longrightarrow> lstrip s = s"
  by (cases s) (auto simp: lstrip_def)

lemma rstrip_rstrip: "rstrip (rstrip s) = rstrip s"
  by (simp add: rstrip_def)

lemma rstrip_Nil_or_hd: "rstrip s = [] \<or> hd (rstrip s) = hd s"
proof -
  obtain w where "s = rstrip s @ w" using rstrip_prefix by blast
  then show ?thesis by (metis hd_append2)
qed

lemma lstrip_Nil_or_hd: "lstrip s = [] \<or> \<not> isspace (hd (lstrip s))"
  by (metis lstrip_def hd_dropWhile)

lemma strip_strip: "strip (strip s) = strip s"
proof -
  have "rstrip (lstrip s) = [] \<or> \<not> isspace (hd (rstrip (lstrip s)))"
    using rstrip_Nil_or_hd[of "lstrip s"] lstrip_Nil_or_hd[of s] by (auto simp: rstrip_def)
  then have "lstrip (rstrip (lstrip s)) = rstrip (lstrip s)" by (rule lstrip_id)
  then show ?thesis by (simp add: strip_def rstrip_rstrip)
qed

lemma rstrip_id:
  assumes "s \<noteq> []" "\<not> isspace (last s)"
  shows "rstrip s = s"
proof -
  from assms(1) obtain ys y where s: "s = ys @ [y]" by (cases s rule: rev_cases) auto
  with assms(2) show ?thesis by (simp add: rstrip_def)
qed

lemma strip_id: "s \<noteq> [] \<Longrightarrow> \<not> isspace (hd s) \<Longrightarrow> \<not> isspace (last s) \<Longrightarrow> strip s = s"
  by (simp add: strip_def lstrip_id rstrip_id)

lemma startswith_append_ws:
  assumes sw: "startswith (a @ w) m"
    and w: "\<forall>c\<in>set w. isspace c"
    and m: "\<forall>c\<in>set m. \<not> isspace c"
  shows "startswith a m"
proof (cases "length m \<le> length a")
  case True
  with sw show ?thesis by (simp add: startswith_def)
next
  case False
  let ?k = "length m - length a"
  from sw False have eq: "m = a @ take ?k w" by (simp add: startswith_def)
  then have "length m = length a + length (take ?k w)" by (metis length_append)
  with False have "take ?k w \<noteq> []" by auto
  then obtain c where c: "c \<in> set (take ?k w)" by (cases "take ?k w") auto
  then have "c \<in> set w" by (rule in_set_takeD)
  moreover from c eq have "c \<in> set m" by (metis Un_iff set_append)
  ultimately show ?thesis using w m by blast
qed

lemma marker_no_space: "\<forall>c\<in>set (str ''#redirect''). \<not> isspace c"
  by (simp add: str_def isspace_def)

section \<open>Text without markup\<close>

lemma clean_wikitext_no_markup: "no_markup x \<Longrightarrow> clean_wikitext x = strip x"
  by (simp add: no_markup_def cleaner_patterns_def clean_wikitext_def re_sub_no_match)

lemma re_search_strip: "re_search r (strip x) \<Longrightarrow> re_search r x"
proof -
  assume a: "re_search r (strip x)"
  obtain l n where "x = l @ strip x @ n" using strip_decomp by blast
  with re_search_substring[OF a, of l n] show ?thesis by simp
qed

lemma no_markup_strip: "no_markup x \<Longrightarrow> no_markup (strip x)"
  unfolding no_markup_def list_ex_iff using re_search_strip by blast

lemma no_markup_plain:
  assumes "of_char CHR ''{'' \<notin> set x" "of_char CHR ''['' \<notin> set x" "of_char CHR ''<'' \<notin> set x"
  shows "no_markup x"
  using assms
  by (auto simp: no_markup_def cleaner_patterns_def re_template_def re_category_def
        re_extlink_def re_comment_def re_ref_def re_link_def dest: re_search_first_chr)

section \<open>\<open>is_include_only\<close> raises no exception\<close>

text \<open>
  Each template pattern starts with an opening brace, so a content in which one of them
  is found has a word and the division does not raise.
\<close>

lemma not_isspace_brace: "\<not> isspace (of_char CHR ''{'')"
  by (simp add: isspace_def)

lemma re_search_split_nonempty:
  "re_search (Seq (Seq (chr CHR ''{'') x) r) s \<Longrightarrow> split s \<noteq> []"
  using re_search_first_chr[of "CHR ''{''" x r s] not_isspace_brace
  by (auto simp: split_Nil_iff)

lemma include_only_loop_no_exn:
  "\<forall>t\<in>set ts. \<exists>x r. t = Seq (Seq (chr CHR ''{'') x) r \<Longrightarrow> \<exists>b. include_only_loop ts s = Inr b"
proof (induction ts)
  case Nil
  then show ?case by auto
next
  case (Cons t ts)
  then obtain x r where t: "t = Seq (Seq (chr CHR ''{'') x) r" by auto
  from Cons have IH: "\<exists>b. include_only_loop ts s = Inr b" by simp
  show ?case
  proof (cases "re_search t s")
    case True
    then have "split s \<noteq> []" using re_search_split_nonempty t by blast
    with True IH show ?thesis by auto
  next
    case False
    with IH show ?thesis by simp
  qed
qed

lemma is_include_only_no_exn: "\<exists>b. is_include_only ieq s = Inr b"
proof -
  have "\<forall>t\<in>set (include_only_templates ieq). \<exists>x r. t = Seq (Seq (chr CHR ''{'') x) r"
    by (simp add: include_only_templates_def)
  from include_only_loop_no_exn[OF this] show ?thesis
    by (auto simp: is_include_only_def Let_def)
qed

lemma include_only_loop_plain:
  assumes "of_char CHR ''{'' \<notin> set s"
  shows "include_only_loop (include_only_templates ieq) s = Inr False"
proof -
  have "\<And>x r. \<not> re_search (Seq (Seq (chr CHR ''{'') x) r) s"
    using assms re_search_first_chr by blast
  then show ?thesis by (simp add: include_only_templates_def)
qed

lemma is_include_only_plain:
  assumes brace: "of_char CHR ''{'' \<notin> set s"
    and s: "s = c # cs"
    and c: "\<not> isspace c" "c \<noteq> of_char CHR ''}''" "c \<noteq> of_char CHR ''|''"
           "c \<noteq> of_char CHR ''<''" "c \<noteq> of_char CHR ''[''"
  shows "is_include_only ieq s = Inr False"
proof -
  from s c have l: "lstrip s = s" by (simp add: lstrip_def)
  from s c have st: "\<not> list_ex (startswith s) include_only_starts"
    by (simp add: include_only_starts_def startswith_def str_def)
  from brace s have "c \<noteq> of_char CHR ''{''" by auto
  with c have "match_at re_templates_categories_space (c # cs) = None"
    by (simp add: match_at_def re_templates_categories_space_def re_template_def re_category_def
          space_def chr_def)
  then have "re_sub re_templates_categories_space repl_empty s \<noteq> []"
    using s by (simp add: re_sub_def)
  with l st include_only_loop_plain[OF brace] show ?thesis
    by (simp add: is_include_only_def Let_def)
qed

section \<open>The example text\<close>

lemma demo_text_chars:
  "of_char CHR ''{'' \<notin> set demo_text" "of_char CHR ''['' \<notin> set demo_text"
  "of_char CHR ''<'' \<notin> set demo_text"
  by (simp_all add: demo_text_def str_def)

lemma demo_text_strip: "strip demo_text = demo_text"
  by (rule strip_id) (simp_all add: demo_text_def str_def isspace_def)

lemma demo_text_no_markup: "no_markup demo_text"
  by (rule no_markup_plain) (rule demo_text_chars)+

lemma demo_text_clean: "clean_wikitext demo_text = demo_text"
  by (simp add: clean_wikitext_no_markup demo_text_no_markup demo_text_strip)

lemma demo_text_length: "length demo_text = 362"
  by (simp add: demo_text_def str_def)

lemma demo_text_words: "length (split demo_text) = 63"
  by (simp add: demo_text_def str_def split_def isspace_def)

lemma demo_text_not_redirect: "\<not> is_redirect ascii_lower demo_text"
  by (simp add: is_redirect_def demo_text_strip startswith_def)
     (simp add: demo_text_def str_def ascii_lower_def)

lemma demo_text_not_include_only: "is_include_only ascii_ieq demo_text = Inr False"
  by (rule is_include_only_plain[where c = "of_char CHR ''A''" and cs = "tl demo_text"])
     (simp_all add: demo_text_def str_def isspace_def)

lemma demo_text_kept:
  "process_article textlib_roundtrip (str ''Aarhus'') demo_text =
     Inr (Some \<lparr>title = str ''Aarhus'', content = demo_text\<rparr>)"
  by (simp add: process_article_def textlib_roundtrip_def demo_text_not_redirect demo_text_clean
        demo_text_not_include_only is_meaningful_article_def demo_text_length demo_text_words
        min_content_length_def min_word_count_def)

lemma ascii_lower_ws: "\<forall>c\<in>set w. isspace c \<Longrightarrow> ascii_lower (a @ w) = ascii_lower a @ w"
proof -
  assume w: "\<forall>c\<in>set w. isspace c"
  have "map (\<lambda>c. if 0x41 \<le> c \<and> c \<le> 0x5A then c + 0x20 else c) w = w"
    by (rule map_idI) (use w in \<open>auto simp: isspace_def\<close>)
  then show ?thesis by (simp add: ascii_lower_def)
qed

section \<open>Properties of \<open>process_article\<close>\<close>

lemma is_redirect_lstrip:
  assumes lower_ws: "\<And>a w. \<forall>c\<in>set w. isspace c \<Longrightarrow> lower (a @ w) = lower a @ w"
    and sw: "startswith (lower (lstrip text)) (str ''#redirect'')"
  shows "is_redirect lower text"
proof -
  obtain l n where n: "lstrip text = strip text @ n" "\<forall>c\<in>set n. isspace c"
    using strip_decomp by blast
  from lower_ws[OF n(2)] n(1) sw
  have "startswith (lower (strip text) @ n) (str ''#redirect'')" by simp
  from startswith_append_ws[OF this n(2) marker_no_space]
  show ?thesis by (simp add: is_redirect_def)
qed

text \<open>
  Claim C3.  When the text is not a redirect and parsing the wikitext raises an
  exception, \<open>process_article\<close> does not skip the article: it returns the article with
  the raw text, neither parsed nor cleaned, as its content.
\<close>

theorem process_article_parse_failure:
  "\<not> is_redirect (str_lower L) text \<Longrightarrow> mw_parse L text = None \<Longrightarrow>
   process_article L ttl text = Inr (Some \<lparr>title = ttl, content = text\<rparr>)"
  by (simp add: process_article_def)

theorem process_article_parse_failure_witness:
  "\<not> is_redirect (str_lower textlib_parse_error) (str ''{{Infobox|x=1}} Hello'') \<and>
   mw_parse textlib_parse_error (str ''{{Infobox|x=1}} Hello'') = None \<and>
   process_article textlib_parse_error (str ''T'') (str ''{{Infobox|x=1}} Hello'') =
     Inr (Some \<lparr>title = str ''T'', content = str ''{{Infobox|x=1}} Hello''\<rparr>)"
proof -
  have r: "\<not> is_redirect (str_lower textlib_parse_error) (str ''{{Infobox|x=1}} Hello'')"
    by (simp add: is_redirect_def textlib_parse_error_def strip_def lstrip_def rstrip_def
          isspace_def startswith_def ascii_lower_def str_def)
  have p: "mw_parse textlib_parse_error (str ''{{Infobox|x=1}} Hello'') = None"
    by (simp add: textlib_parse_error_def)
  from r p process_article_parse_failure[OF r p, of "str ''T''"] show ?thesis by simp
qed

text \<open>
  Claim C4.  A raw text that starts with the marker \<open>#redirect\<close> once its leading
  whitespace is trimmed and it is lower-cased is skipped: \<open>process_article\<close> returns
  \<open>None\<close>, whatever follows the marker.  The code trims the whitespace at both ends
  before it lowers the text; \<open>str.lower\<close> leaves trailing whitespace in place, which is
  the first hypothesis.
\<close>

theorem process_article_redirect:
  assumes "\<And>a w. \<forall>c\<in>set w. isspace c \<Longrightarrow> str_lower L (a @ w) = str_lower L a @ w"
    and "startswith (str_lower L (lstrip text)) (str ''#redirect'')"
  shows "process_article L ttl text = Inr None"
  using is_redirect_lstrip[of "str_lower L" "text", OF assms]
  by (simp add: process_article_def)

theorem process_article_redirect_witness:
  "startswith (str_lower textlib_roundtrip (lstrip (str ''  #REDIRECT [[Other Page]] '')))
     (str ''#redirect'') \<and>
   process_article textlib_roundtrip (str ''T'') (str ''  #REDIRECT [[Other Page]] '') = Inr None"
proof -
  have l: "\<And>a w. \<forall>c\<in>set w. isspace c \<Longrightarrow>
             str_lower textlib_roundtrip (a @ w) = str_lower textlib_roundtrip a @ w"
    by (simp add: textlib_roundtrip_def ascii_lower_ws)
  have s: "startswith (str_lower textlib_roundtrip (lstrip (str ''  #REDIRECT [[Other Page]] '')))
             (str ''#redirect'')"
    by (simp add: textlib_roundtrip_def lstrip_def isspace_def startswith_def ascii_lower_def
          str_def)
  from s process_article_redirect[OF l s, of "str ''T''"] show ?thesis by simp
qed

text \<open>
  Claim C5.  A wikitext whose cleaned content, that is \<open>clean_wikitext\<close> of the parsed
  text, has fewer than 300 characters or fewer than 50 words is skipped:
  \<open>process_article\<close> returns \<open>None\<close>.
\<close>

theorem process_article_not_meaningful:
  assumes "mw_parse L text = Some wikicode"
    and "length (clean_wikitext wikicode) < 300 \<or> length (split (clean_wikitext wikicode)) < 50"
  shows "process_article L ttl text = Inr None"
proof -
  obtain b where b: "is_include_only (re_ieq L) (clean_wikitext wikicode) = Inr b"
    using is_include_only_no_exn by blast
  have "\<not> is_meaningful_article (clean_wikitext wikicode)"
    using assms(2) by (auto simp: is_meaningful_article_def min_content_length_def min_word_count_def)
  with b assms(1) show ?thesis
    by (simp add: process_article_def Let_def split: bool.splits)
qed

lemma clean_short_example:
  "clean_wikitext (str ''{{Infobox|x=1}}Kort tekst.'') = str ''Kort tekst.''"
  by (simp add: clean_wikitext_def re_sub_def str_def re_template_def re_category_def
        re_extlink_def re_comment_def re_ref_def re_link_def chr_def not_chr_def not_chr2_def
        dot_all_def Plus_def Opt_def match_at_def strip_def lstrip_def rstrip_def isspace_def
        repl_empty_def repl_group1_def Let_def)

theorem process_article_not_meaningful_witness:
  "mw_parse textlib_roundtrip (str ''{{Infobox|x=1}}Kort tekst.'') =
     Some (str ''{{Infobox|x=1}}Kort tekst.'') \<and>
   length (clean_wikitext (str ''{{Infobox|x=1}}Kort tekst.'')) < 300 \<and>
   process_article textlib_roundtrip (str ''T'') (str ''{{Infobox|x=1}}Kort tekst.'') = Inr None"
proof -
  have p: "mw_parse textlib_roundtrip (str ''{{Infobox|x=1}}Kort tekst.'') =
             Some (str ''{{Infobox|x=1}}Kort tekst.'')"
    by (simp add: textlib_roundtrip_def)
  have n: "length (clean_wikitext (str ''{{Infobox|x=1}}Kort tekst.'')) < 300"
    by (simp add: clean_short_example) (simp add: str_def)
  then have n': "length (clean_wikitext (str ''{{Infobox|x=1}}Kort tekst.'')) < 300 \<or>
                 length (split (clean_wikitext (str ''{{Infobox|x=1}}Kort tekst.''))) < 50"
    by (rule disjI1)
  from p n process_article_not_meaningful[OF p n', of "str ''T''"] show ?thesis by simp
qed

text \<open>
  Claim C10.  When \<open>process_article\<close> returns a kept article and parsing the wikitext
  succeeded, the content returned is \<open>clean_wikitext\<close> of the parsed text, it has at
  least 300 characters and at least 50 words, it is not classified include-only, and the
  raw text was not a redirect.
\<close>

theorem process_article_kept_invariant:
  assumes "process_article L ttl text = Inr (Some a)"
    and "mw_parse L text = Some wikicode"
  shows "content a = clean_wikitext wikicode \<and> title a = ttl \<and>
         length (content a) \<ge> 300 \<and> length (split (content a)) \<ge> 50 \<and>
         is_include_only (re_ieq L) (content a) = Inr False \<and>
         \<not> is_redirect (str_lower L) text"
  using assms
  by (auto simp: process_article_def Let_def is_meaningful_article_def
        min_content_length_def min_word_count_def split: if_splits sum.splits bool.splits)

theorem process_article_kept_invariant_witness:
  "process_article textlib_roundtrip (str ''Aarhus'') demo_text =
     Inr (Some \<lparr>title = str ''Aarhus'', content = demo_text\<rparr>) \<and>
   mw_parse textlib_roundtrip demo_text = Some demo_text \<and>
   demo_text = clean_wikitext demo_text \<and>
   300 \<le> length demo_text \<and> 50 \<le> length (split demo_text) \<and>
   is_include_only (re_ieq textlib_roundtrip) demo_text = Inr False \<and>
   \<not> is_redirect (str_lower textlib_roundtrip) demo_text"
proof -
  have p: "mw_parse textlib_roundtrip demo_text = Some demo_text"
    by (simp add: textlib_roundtrip_def)
  from demo_text_kept p process_article_kept_invariant[OF demo_text_kept p]
  show ?thesis by simp
qed

section \<open>Properties of \<open>clean_wikitext\<close>\<close>

text \<open>
  Claim C7.  On a plain text that contains no wiki markup cleaning is idempotent:
  \<open>clean_wikitext (clean_wikitext x) = clean_wikitext x\<close>.
\<close>

theorem clean_wikitext_idempotent:
  "no_markup x \<Longrightarrow> clean_wikitext (clean_wikitext x) = clean_wikitext x"
proof -
  assume x: "no_markup x"
  then have "clean_wikitext x = strip x" by (rule clean_wikitext_no_markup)
  moreover from x have "clean_wikitext (strip x) = strip (strip x)"
    by (intro clean_wikitext_no_markup no_markup_strip)
  ultimately show ?thesis by (simp add: strip_strip)
qed

lemma no_markup_example: "no_markup (str '' 2 < 3 [sic] '')"
  by (simp add: no_markup_def cleaner_patterns_def str_def re_template_def re_category_def
        re_extlink_def re_comment_def re_ref_def re_link_def chr_def not_chr_def not_chr2_def
        dot_all_def Plus_def Opt_def match_at_def)

theorem clean_wikitext_idempotent_witness:
  "no_markup (str '' 2 < 3 [sic] '') \<and>
   clean_wikitext (clean_wikitext (str '' 2 < 3 [sic] '')) = clean_wikitext (str '' 2 < 3 [sic] '')"
  using no_markup_example clean_wikitext_idempotent[OF no_markup_example] by simp

subsection \<open>A greedy star over a run of characters\<close>





subsection \<open>The link pattern on one link\<close>















subsection \<open>The passes before the link pass\<close>











subsection \<open>Internal links between plain texts\<close>




section \<open>Properties of \<open>generate_questions\<close>\<close>

lemma map_filter_append:
  "List.map_filter f (xs @ ys) = List.map_filter f xs @ List.map_filter f ys"
  by (simp add: List.map_filter_def)

lemma logging_simps [simp]:
  "files (logging l m w) = files w"
  "events (logging l m w) = events w @ [Log l m]"
  "api_calls (logging l m w) = api_calls w"
  "sleeps (logging l m w) = sleeps w"
  "logs (logging l m w) = logs w @ [(l, m)]"
  "actions (logging l m w) = actions w"
  by (simp_all add: logging_def api_calls_def sleeps_def logs_def actions_def map_filter_append)

lemma time_sleep_simps [simp]:
  "files (time_sleep n w) = files w"
  "events (time_sleep n w) = events w @ [Sleep n]"
  "api_calls (time_sleep n w) = api_calls w"
  "sleeps (time_sleep n w) = sleeps w @ [n]"
  "logs (time_sleep n w) = logs w"
  "actions (time_sleep n w) = actions w @ [Sleep n]"
  by (simp_all add: time_sleep_def api_calls_def sleeps_def logs_def actions_def map_filter_append)

lemma send_request_simps [simp]:
  "files (send_request p w) = files w"
  "events (send_request p w) = events w @ [Request p]"
  "api_calls (send_request p w) = api_calls w @ [p]"
  "sleeps (send_request p w) = sleeps w"
  "logs (send_request p w) = logs w"
  "actions (send_request p w) = actions w @ [Request p]"
  by (simp_all add: send_request_def api_calls_def sleeps_def logs_def actions_def map_filter_append)

lemma files_update_simps [simp]:
  "events (w\<lparr>files := f\<rparr>) = events w"
  "api_calls (w\<lparr>files := f\<rparr>) = api_calls w"
  "sleeps (w\<lparr>files := f\<rparr>) = sleeps w"
  "logs (w\<lparr>files := f\<rparr>) = logs w"
  "actions (w\<lparr>files := f\<rparr>) = actions w"
  by (simp_all add: api_calls_def sleeps_def logs_def actions_def)

lemma except_branch_simps [simp]:
  "files (except_branch e a w) = files w"
  "events (except_branch e a w) =
     events w @ Log WARNING (msg_error e) # (if a < max_retries - 1 then [Sleep 2] else [])"
  "api_calls (except_branch e a w) = api_calls w"
  "sleeps (except_branch e a w) = sleeps w @ (if a < max_retries - 1 then [2] else [])"
  "logs (except_branch e a w) = logs w @ [(WARNING, msg_error e)]"
  "actions (except_branch e a w) = actions w @ (if a < max_retries - 1 then [Sleep 2] else [])"
  by (simp_all add: except_branch_def Let_def)

lemma range_max_retries: "[0..<3] = [0, 1, 2::nat]"
  by (simp add: upt_rec)

lemma attempt_fails_request:
  assumes "attempt_fails G n prompt"
  shows "\<exists>e. request_qa_pairs G n prompt = Inl e"
proof (cases "request_qa_pairs G n prompt")
  case (Inl e)
  then show ?thesis by blast
next
  case (Inr v)
  with assms show ?thesis
    by (auto simp: attempt_fails_def request_qa_pairs_def split: sum.splits option.splits)
qed

lemma request_success:
  "chat_completion G n prompt = Inr (Some body) \<Longrightarrow> json_loads G body = Inr qa \<Longrightarrow>
   request_qa_pairs G n prompt = Inr qa"
  by (simp add: request_qa_pairs_def)

lemma attempt_loop_request_fails:
  "request_qa_pairs G (length (api_calls w)) prompt = Inl e \<Longrightarrow>
   attempt_loop G art cf prompt (a # rest) w =
   attempt_loop G art cf prompt rest
     (except_branch e a (send_request prompt (logging DEBUG (msg_sending art a) w)))"
  by (simp add: Let_def)

lemma attempt_loop_written:
  "request_qa_pairs G (length (api_calls w)) prompt = Inr qa \<Longrightarrow>
   open_write G (length (api_calls w)) cf (json_dumps G qa) = Written \<Longrightarrow>
   attempt_loop G art cf prompt (a # rest) w =
   (Some qa, logging DEBUG (msg_cached art)
      ((send_request prompt (logging DEBUG (msg_sending art a) w))
         \<lparr>files := (files w)(cf \<mapsto> json_dumps G qa)\<rparr>))"
  by (simp add: Let_def write_file_def)

lemma attempt_loop_write_raises:
  "request_qa_pairs G (length (api_calls w)) prompt = Inr qa \<Longrightarrow>
   open_write G (length (api_calls w)) cf (json_dumps G qa) = WriteRaises e left \<Longrightarrow>
   attempt_loop G art cf prompt (a # rest) w =
   attempt_loop G art cf prompt rest
     (except_branch e a ((send_request prompt (logging DEBUG (msg_sending art a) w))
         \<lparr>files := (files w)(cf \<mapsto> left)\<rparr>))"
  by (simp add: Let_def write_file_def)

lemma attempt_loop_open_raises:
  "request_qa_pairs G (length (api_calls w)) prompt = Inr qa \<Longrightarrow>
   open_write G (length (api_calls w)) cf (json_dumps G qa) = OpenRaises e \<Longrightarrow>
   attempt_loop G art cf prompt (a # rest) w =
   attempt_loop G art cf prompt rest
     (except_branch e a (send_request prompt (logging DEBUG (msg_sending art a) w)))"
  by (simp add: Let_def write_file_def)

lemma projections_of_events:
  "api_calls w = List.map_filter (\<lambda>e. case e of Request p \<Rightarrow> Some p | _ \<Rightarrow> None) (events w)"
  "sleeps w = List.map_filter (\<lambda>e. case e of Sleep n \<Rightarrow> Some n | _ \<Rightarrow> None) (events w)"
  "logs w = List.map_filter (\<lambda>e. case e of Log l m \<Rightarrow> Some (l, m) | _ \<Rightarrow> None) (events w)"
  "actions w = filter (\<lambda>e. \<not> is_log e) (events w)"
  by (simp_all add: api_calls_def sleeps_def logs_def actions_def)

lemma cache_file_of_path:
  assumes "list_all hexdigit (md5_hexdigest G (title art @ content art))"
  shows "cache_file_of G art cache_dir =
           cache_dir @ (if cache_dir = [] \<or> last cache_dir = of_char CHR ''/'' then [] else str ''/'') @
           md5_hexdigest G (title art @ content art) @ str ''.json''"
proof -
  let ?h = "md5_hexdigest G (title art @ content art)"
  have "\<not> startswith (?h @ str ''.json'') (str ''/'')"
  proof (cases ?h)
    case Nil
    then show ?thesis by (simp add: startswith_def str_def)
  next
    case (Cons c cs)
    with assms have "hexdigit c" by simp
    then have "c \<noteq> 47" by (auto simp: hexdigit_def)
    with Cons show ?thesis by (simp add: startswith_def str_def)
  qed
  then show ?thesis by (simp add: cache_file_of_def path_join_def Let_def)
qed

lemma demo_digest: "toy_md5 (title demo_article @ content demo_article) = str ''368''"
proof -
  have "length (title demo_article @ content demo_article) = 368"
    by (simp add: demo_article_def demo_text_length) (simp add: str_def)
  then show ?thesis by (simp add: toy_md5_def nat_str.simps str_def)
qed

lemma demo_cache_file:
  "md5_hexdigest G = toy_md5 \<Longrightarrow>
   cache_file_of G demo_article (str ''qa_cache'') = str ''qa_cache/368.json''"
  by (simp add: cache_file_of_def Let_def demo_digest path_join_def) (simp add: str_def startswith_def)

lemma demo_dump_writable: "utf8_open_write n path (toy_json_dumps demo_qa_pairs) = Written"
  by (simp add: utf8_open_write_def toy_json_dumps_def has_surrogate_def demo_body_def str_def)

lemma surrogate_loads: "toy_json_loads surrogate_body = Inr surrogate_qa_pairs"
  by (simp add: toy_json_loads_def surrogate_body_def demo_body_def str_def)

lemma surrogate_differs: "surrogate_qa_pairs \<noteq> demo_qa_pairs"
  by (simp add: surrogate_qa_pairs_def demo_qa_pairs_def qa_record_def str_def)

lemma surrogate_dump_raises:
  "utf8_open_write n path (toy_json_dumps surrogate_qa_pairs) =
     WriteRaises (UnicodeEncodeError (str ''surrogates not allowed'')) []"
  by (simp add: utf8_open_write_def toy_json_dumps_def surrogate_differs has_surrogate_def
        surrogate_dump_def str_def)

text \<open>
  Claim C1.  When no cache file exists for the article and each of the three attempts
  fails (the client raises, the response is empty, or the body does not parse),
  \<open>generate_questions\<close> returns the empty list and raises nothing, and it leaves the
  files, hence the cache, as they were.  What it does to the outside is, in this
  order: a request, a sleep of 2 time units, a request, a sleep of 2 time units, a
  request.  So each sleep falls between two attempts and no sleep follows the last
  attempt.  With the log records the events are: the debug record of the call; for
  each attempt a debug record, the request and a warning with the exception, then the
  sleep after the first and after the second attempt; and the error record at the end.
\<close>

theorem generate_questions_all_attempts_fail:
  assumes miss: "files w (cache_file_of G art cache_dir) = None"
    and fails: "\<forall>i<max_retries. attempt_fails G (length (api_calls w) + i) (build_prompt art)"
  shows "fst (generate_questions G art cache_dir w) = Inr (JArr []) \<and>
         files (snd (generate_questions G art cache_dir w)) = files w \<and>
         sleeps (snd (generate_questions G art cache_dir w)) = sleeps w @ [2, 2] \<and>
         api_calls (snd (generate_questions G art cache_dir w)) =
           api_calls w @ [build_prompt art, build_prompt art, build_prompt art] \<and>
         map fst (logs (snd (generate_questions G art cache_dir w))) =
           map fst (logs w) @ [DEBUG, DEBUG, WARNING, DEBUG, WARNING, DEBUG, WARNING, ERROR] \<and>
         actions (snd (generate_questions G art cache_dir w)) =
           actions w @ [Request (build_prompt art), Sleep 2, Request (build_prompt art), Sleep 2,
                        Request (build_prompt art)] \<and>
         (\<exists>e0 e1 e2. events (snd (generate_questions G art cache_dir w)) =
           events w @
           [Log DEBUG (msg_generating art),
            Log DEBUG (msg_sending art 0), Request (build_prompt art), Log WARNING (msg_error e0),
            Sleep 2,
            Log DEBUG (msg_sending art 1), Request (build_prompt art), Log WARNING (msg_error e1),
            Sleep 2,
            Log DEBUG (msg_sending art 2), Request (build_prompt art), Log WARNING (msg_error e2),
            Log ERROR (msg_failed art)])"
proof -
  let ?n = "length (api_calls w)"
  let ?p = "build_prompt art"
  let ?R = "generate_questions G art cache_dir w"
  have "attempt_fails G (?n + 0) ?p" "attempt_fails G (?n + 1) ?p" "attempt_fails G (?n + 2) ?p"
    using fails[rule_format, of 0] fails[rule_format, of 1] fails[rule_format, of 2]
    by (simp_all add: max_retries_def)
  then obtain e0 e1 e2 where
    e0: "request_qa_pairs G ?n ?p = Inl e0" and
    e1: "request_qa_pairs G (Suc ?n) ?p = Inl e1" and
    e2: "request_qa_pairs G (Suc (Suc ?n)) ?p = Inl e2"
    using attempt_fails_request by fastforce
  have R: "?R = (Inr (JArr []),
      logging ERROR (msg_failed art)
       (except_branch e2 2 (send_request ?p (logging DEBUG (msg_sending art 2)
       (except_branch e1 1 (send_request ?p (logging DEBUG (msg_sending art 1)
       (except_branch e0 0 (send_request ?p (logging DEBUG (msg_sending art 0)
       (logging DEBUG (msg_generating art) w)))))))))))"
    using miss e0 e1 e2
    by (simp add: generate_questions_def Let_def max_retries_def range_max_retries
          attempt_loop_request_fails del: attempt_loop.simps(2))
  have ev: "events (snd ?R) = events w @
           [Log DEBUG (msg_generating art),
            Log DEBUG (msg_sending art 0), Request ?p, Log WARNING (msg_error e0), Sleep 2,
            Log DEBUG (msg_sending art 1), Request ?p, Log WARNING (msg_error e1), Sleep 2,
            Log DEBUG (msg_sending art 2), Request ?p, Log WARNING (msg_error e2),
            Log ERROR (msg_failed art)]"
    by (simp add: R max_retries_def)
  have "fst ?R = Inr (JArr [])" by (simp add: R)
  moreover have "files (snd ?R) = files w" by (simp add: R)
  moreover have "sleeps (snd ?R) = sleeps w @ [2, 2]" by (simp add: R max_retries_def)
  moreover have "api_calls (snd ?R) = api_calls w @ [?p, ?p, ?p]" by (simp add: R)
  moreover have "map fst (logs (snd ?R)) =
      map fst (logs w) @ [DEBUG, DEBUG, WARNING, DEBUG, WARNING, DEBUG, WARNING, ERROR]"
    by (simp add: R)
  moreover have "actions (snd ?R) =
      actions w @ [Request ?p, Sleep 2, Request ?p, Sleep 2, Request ?p]"
    by (simp add: R max_retries_def)
  ultimately show ?thesis using ev by blast
qed

theorem generate_questions_all_attempts_fail_witness:
  "files world_empty (cache_file_of genlib_down demo_article (str ''qa_cache'')) = None \<and>
   attempt_fails genlib_down 0 (build_prompt demo_article) \<and>
   attempt_fails genlib_down 1 (build_prompt demo_article) \<and>
   attempt_fails genlib_down 2 (build_prompt demo_article) \<and>
   fst (generate_questions genlib_down demo_article (str ''qa_cache'') world_empty) =
     Inr (JArr []) \<and>
   files (snd (generate_questions genlib_down demo_article (str ''qa_cache'') world_empty)) =
     Map.empty \<and>
   sleeps (snd (generate_questions genlib_down demo_article (str ''qa_cache'') world_empty)) =
     [2, 2] \<and>
   map fst (logs (snd (generate_questions genlib_down demo_article (str ''qa_cache'')
     world_empty))) = [DEBUG, DEBUG, WARNING, DEBUG, WARNING, DEBUG, WARNING, ERROR] \<and>
   actions (snd (generate_questions genlib_down demo_article (str ''qa_cache'') world_empty)) =
     [Request (build_prompt demo_article), Sleep 2, Request (build_prompt demo_article), Sleep 2,
      Request (build_prompt demo_article)]"
proof -
  have miss: "files world_empty (cache_file_of genlib_down demo_article (str ''qa_cache'')) = None"
    by (simp add: world_empty_def)
  have fails: "\<forall>i<max_retries. attempt_fails genlib_down (length (api_calls world_empty) + i)
                 (build_prompt demo_article)"
    by (simp add: attempt_fails_def genlib_down_def)
  have each: "attempt_fails genlib_down n (build_prompt demo_article)" for n
    by (simp add: attempt_fails_def genlib_down_def)
  have w: "files world_empty = Map.empty" "sleeps world_empty = []" "logs world_empty = []"
    "actions world_empty = []"
    by (simp_all add: world_empty_def sleeps_def logs_def actions_def List.map_filter_def)
  from miss each generate_questions_all_attempts_fail[OF miss fails]
  show ?thesis by (simp add: w)
qed

text \<open>
  Claim C2.  The cache file is a function of \<open>title + content\<close> (and of the cache
  directory): two articles with the same concatenation have the same cache file.  When
  the cache file exists, \<open>generate_questions\<close> returns what \<open>json.loads\<close> makes of its
  contents and sends no API request, and neither does a second call with the same
  arguments made thereafter.
\<close>

theorem generate_questions_cache_hit:
  "(title a @ content a = title b @ content b \<longrightarrow>
      cache_file_of G a cache_dir = cache_file_of G b cache_dir) \<and>
   (files w (cache_file_of G a cache_dir) = Some data \<longrightarrow>
      fst (generate_questions G a cache_dir w) = json_loads G data \<and>
      api_calls (snd (generate_questions G a cache_dir w)) = api_calls w \<and>
      files (snd (generate_questions G a cache_dir w)) = files w \<and>
      sleeps (snd (generate_questions G a cache_dir w)) = sleeps w \<and>
      fst (generate_questions G a cache_dir (snd (generate_questions G a cache_dir w))) =
        json_loads G data \<and>
      api_calls (snd (generate_questions G a cache_dir (snd (generate_questions G a cache_dir w)))) =
        api_calls w)"
  by (simp add: generate_questions_def cache_file_of_def Let_def)

theorem generate_questions_cache_hit_witness:
  "title demo_article @ content demo_article =
     title demo_article_split @ content demo_article_split \<and>
   cache_file_of genlib_down demo_article (str ''qa_cache'') =
     cache_file_of genlib_down demo_article_split (str ''qa_cache'') \<and>
   files world_cached (cache_file_of genlib_down demo_article (str ''qa_cache'')) =
     Some demo_body \<and>
   fst (generate_questions genlib_down demo_article (str ''qa_cache'') world_cached) =
     Inr demo_qa_pairs \<and>
   api_calls (snd (generate_questions genlib_down demo_article (str ''qa_cache'')
     world_cached)) = [] \<and>
   api_calls (snd (generate_questions genlib_down demo_article (str ''qa_cache'')
     (snd (generate_questions genlib_down demo_article (str ''qa_cache'') world_cached)))) = []"
proof -
  have same: "title demo_article @ content demo_article =
                title demo_article_split @ content demo_article_split"
    by (simp add: demo_article_def demo_article_split_def str_def)
  have hit: "files world_cached (cache_file_of genlib_down demo_article (str ''qa_cache'')) =
               Some demo_body"
    by (simp add: world_cached_def world_empty_def)
  have loads: "json_loads genlib_down demo_body = Inr demo_qa_pairs"
    by (simp add: genlib_down_def toy_json_loads_def)
  have calls: "api_calls world_cached = []"
    by (simp add: world_cached_def world_empty_def api_calls_def List.map_filter_def)
  from same hit loads calls
    generate_questions_cache_hit[of demo_article demo_article_split genlib_down
      "str ''qa_cache''" world_cached demo_body]
  show ?thesis by simp
qed

text \<open>
  Claim C9.  When the cache file exists and its contents do not parse as JSON, the
  exception of \<open>json.loads\<close> leaves \<open>generate_questions\<close>: the file is not treated as a
  cache miss, the retry loop is not entered (no API request, no sleep, no file written),
  and the empty list is not returned.
\<close>

theorem generate_questions_corrupt_cache:
  assumes "files w (cache_file_of G art cache_dir) = Some data"
    and "json_loads G data = Inl e"
  shows "fst (generate_questions G art cache_dir w) = Inl e \<and>
         fst (generate_questions G art cache_dir w) \<noteq> Inr (JArr []) \<and>
         api_calls (snd (generate_questions G art cache_dir w)) = api_calls w \<and>
         sleeps (snd (generate_questions G art cache_dir w)) = sleeps w \<and>
         files (snd (generate_questions G art cache_dir w)) = files w"
  using assms by (simp add: generate_questions_def Let_def)

theorem generate_questions_corrupt_cache_witness:
  "files world_corrupt (cache_file_of genlib_down demo_article (str ''qa_cache'')) =
     Some (str ''[{'') \<and>
   json_loads genlib_down (str ''[{'') =
     Inl (JSONDecodeError (str ''Expecting value: line 1 column 1 (char 0)'')) \<and>
   fst (generate_questions genlib_down demo_article (str ''qa_cache'') world_corrupt) =
     Inl (JSONDecodeError (str ''Expecting value: line 1 column 1 (char 0)'')) \<and>
   api_calls (snd (generate_questions genlib_down demo_article (str ''qa_cache'')
     world_corrupt)) = [] \<and>
   sleeps (snd (generate_questions genlib_down demo_article (str ''qa_cache'')
     world_corrupt)) = []"
proof -
  have hit: "files world_corrupt (cache_file_of genlib_down demo_article (str ''qa_cache'')) =
               Some (str ''[{'')"
    by (simp add: world_corrupt_def world_empty_def)
  have bad: "json_loads genlib_down (str ''[{'') =
               Inl (JSONDecodeError (str ''Expecting value: line 1 column 1 (char 0)''))"
    by (simp add: genlib_down_def toy_json_loads_def demo_body_def surrogate_body_def str_def)
  have w: "api_calls world_corrupt = []" "sleeps world_corrupt = []"
    by (simp_all add: world_corrupt_def world_empty_def api_calls_def sleeps_def
          List.map_filter_def)
  from hit bad w generate_questions_corrupt_cache[OF hit bad] show ?thesis by simp
qed

text \<open>
  Claim C6, amended.  Let no cache file exist, let the first \<open>k\<close> attempts fail and let
  the next attempt, still one of the three, get a body that parses (a list of five
  question/answer records, say), and let the write of the cache file in that attempt
  succeed.  Then \<open>generate_questions\<close> returns the parsed value as it is and changes
  one file: the file named by the cache directory, a \<^verbatim>\<open>/\<close> unless the directory is
  empty or ends with one, the hex digest of \<open>md5(title + content)\<close> and \<^verbatim>\<open>.json\<close>.
  The file holds \<open>json.dumps\<close> of the value.  The function sends \<open>k + 1\<close> requests and
  sleeps 2 time units after each of the \<open>k\<close> failed attempts, before the next request.
  The digest is a parameter here, so that it consists of hex digits is a hypothesis.
\<close>

theorem generate_questions_success:
  assumes miss: "files w (cache_file_of G art cache_dir) = None"
    and k: "k < max_retries"
    and fails: "\<forall>i<k. attempt_fails G (length (api_calls w) + i) (build_prompt art)"
    and resp: "chat_completion G (length (api_calls w) + k) (build_prompt art) = Inr (Some body)"
    and parse: "json_loads G body = Inr qa_pairs"
    and written: "open_write G (length (api_calls w) + k) (cache_file_of G art cache_dir)
                    (json_dumps G qa_pairs) = Written"
    and hex: "list_all hexdigit (md5_hexdigest G (title art @ content art))"
  shows "fst (generate_questions G art cache_dir w) = Inr qa_pairs \<and>
         files (snd (generate_questions G art cache_dir w)) =
           (files w)
             (cache_dir @
              (if cache_dir = [] \<or> last cache_dir = of_char CHR ''/'' then [] else str ''/'') @
              md5_hexdigest G (title art @ content art) @ str ''.json''
              \<mapsto> json_dumps G qa_pairs) \<and>
         api_calls (snd (generate_questions G art cache_dir w)) =
           api_calls w @ replicate (Suc k) (build_prompt art) \<and>
         sleeps (snd (generate_questions G art cache_dir w)) = sleeps w @ replicate k 2 \<and>
         actions (snd (generate_questions G art cache_dir w)) =
           actions w @ concat (replicate k [Request (build_prompt art), Sleep 2]) @
           [Request (build_prompt art)]"
proof -
  let ?n = "length (api_calls w)"
  let ?p = "build_prompt art"
  let ?cf = "cache_file_of G art cache_dir"
  let ?R = "generate_questions G art cache_dir w"
  let ?w0 = "logging DEBUG (msg_generating art) w"
  note path = cache_file_of_path[OF hex, of cache_dir]
  have ok: "request_qa_pairs G (?n + k) ?p = Inr qa_pairs"
    using resp parse by (rule request_success)
  from k have "k = 0 \<or> k = 1 \<or> k = 2" by (auto simp: max_retries_def)
  then show ?thesis
  proof (elim disjE)
    assume k0: "k = 0"
    with ok written have
      "request_qa_pairs G ?n ?p = Inr qa_pairs"
      "open_write G ?n ?cf (json_dumps G qa_pairs) = Written" by simp_all
    with miss have R: "?R = (Inr qa_pairs, logging DEBUG (msg_cached art)
        ((send_request ?p (logging DEBUG (msg_sending art 0) ?w0))
           \<lparr>files := (files w)(?cf \<mapsto> json_dumps G qa_pairs)\<rparr>))"
      by (simp add: generate_questions_def Let_def max_retries_def range_max_retries
            attempt_loop_written del: attempt_loop.simps(2))
    show ?thesis unfolding R using k0 path by simp
  next
    assume k1: "k = 1"
    have "attempt_fails G (?n + 0) ?p"
      using k1 fails[rule_format, of 0] by simp
    then obtain e0 where e0: "request_qa_pairs G ?n ?p = Inl e0"
      using attempt_fails_request by fastforce
    let ?w1 = "except_branch e0 0 (send_request ?p (logging DEBUG (msg_sending art 0) ?w0))"
    from ok written k1 have
      "request_qa_pairs G (Suc ?n) ?p = Inr qa_pairs"
      "open_write G (Suc ?n) ?cf (json_dumps G qa_pairs) = Written" by simp_all
    with miss e0 have R: "?R = (Inr qa_pairs, logging DEBUG (msg_cached art)
        ((send_request ?p (logging DEBUG (msg_sending art 1) ?w1))
           \<lparr>files := (files w)(?cf \<mapsto> json_dumps G qa_pairs)\<rparr>))"
      by (simp add: generate_questions_def Let_def max_retries_def range_max_retries
            attempt_loop_written attempt_loop_request_fails del: attempt_loop.simps(2))
    show ?thesis unfolding R using k1 path by (simp add: max_retries_def)
  next
    assume k2: "k = 2"
    have "attempt_fails G (?n + 0) ?p" "attempt_fails G (?n + 1) ?p"
      using k2 fails[rule_format, of 0] fails[rule_format, of 1] by simp_all
    then obtain e0 e1 where e0: "request_qa_pairs G ?n ?p = Inl e0"
      and e1: "request_qa_pairs G (Suc ?n) ?p = Inl e1"
      using attempt_fails_request by fastforce
    let ?w1 = "except_branch e0 0 (send_request ?p (logging DEBUG (msg_sending art 0) ?w0))"
    let ?w2 = "except_branch e1 1 (send_request ?p (logging DEBUG (msg_sending art 1) ?w1))"
    from ok written k2 have
      "request_qa_pairs G (Suc (Suc ?n)) ?p = Inr qa_pairs"
      "open_write G (Suc (Suc ?n)) ?cf (json_dumps G qa_pairs) = Written" by simp_all
    with miss e0 e1 have R: "?R = (Inr qa_pairs, logging DEBUG (msg_cached art)
        ((send_request ?p (logging DEBUG (msg_sending art 2) ?w2))
           \<lparr>files := (files w)(?cf \<mapsto> json_dumps G qa_pairs)\<rparr>))"
      by (simp add: generate_questions_def Let_def max_retries_def range_max_retries
            attempt_loop_written attempt_loop_request_fails del: attempt_loop.simps(2))
    show ?thesis unfolding R using k2 path by (simp add: max_retries_def numeral_2_eq_2)
  qed
qed

theorem generate_questions_success_witness:
  "files world_empty (cache_file_of genlib_flaky demo_article (str ''qa_cache'')) = None \<and>
   attempt_fails genlib_flaky 0 (build_prompt demo_article) \<and>
   chat_completion genlib_flaky 1 (build_prompt demo_article) = Inr (Some demo_body) \<and>
   json_loads genlib_flaky demo_body = Inr demo_qa_pairs \<and>
   open_write genlib_flaky 1 (cache_file_of genlib_flaky demo_article (str ''qa_cache''))
     (json_dumps genlib_flaky demo_qa_pairs) = Written \<and>
   md5_hexdigest genlib_flaky (title demo_article @ content demo_article) = str ''368'' \<and>
   list_all hexdigit (str ''368'') \<and>
   fst (generate_questions genlib_flaky demo_article (str ''qa_cache'') world_empty) =
     Inr demo_qa_pairs \<and>
   files (snd (generate_questions genlib_flaky demo_article (str ''qa_cache'') world_empty)) =
     [str ''qa_cache/368.json'' \<mapsto> demo_body] \<and>
   actions (snd (generate_questions genlib_flaky demo_article (str ''qa_cache'') world_empty)) =
     [Request (build_prompt demo_article), Sleep 2, Request (build_prompt demo_article)]"
proof -
  have miss: "files world_empty (cache_file_of genlib_flaky demo_article (str ''qa_cache'')) = None"
    by (simp add: world_empty_def)
  have k: "1 < max_retries"
    by (simp add: max_retries_def)
  have w: "files world_empty = Map.empty" "api_calls world_empty = []"
    "actions world_empty = []"
    by (simp_all add: world_empty_def api_calls_def actions_def List.map_filter_def)
  have f0: "attempt_fails genlib_flaky 0 (build_prompt demo_article)"
    by (simp add: attempt_fails_def genlib_flaky_def)
  then have fails: "\<forall>i<1. attempt_fails genlib_flaky (length (api_calls world_empty) + i)
                      (build_prompt demo_article)"
    by (simp add: w)
  have r1: "chat_completion genlib_flaky 1 (build_prompt demo_article) = Inr (Some demo_body)"
    by (simp add: genlib_flaky_def)
  then have resp: "chat_completion genlib_flaky (length (api_calls world_empty) + 1)
                     (build_prompt demo_article) = Inr (Some demo_body)"
    by (simp add: w)
  have parse: "json_loads genlib_flaky demo_body = Inr demo_qa_pairs"
    by (simp add: genlib_flaky_def toy_json_loads_def)
  have wr1: "open_write genlib_flaky 1 (cache_file_of genlib_flaky demo_article (str ''qa_cache''))
               (json_dumps genlib_flaky demo_qa_pairs) = Written"
    by (simp add: genlib_flaky_def demo_dump_writable)
  then have written: "open_write genlib_flaky (length (api_calls world_empty) + 1)
               (cache_file_of genlib_flaky demo_article (str ''qa_cache''))
               (json_dumps genlib_flaky demo_qa_pairs) = Written"
    by (simp add: w)
  have dg: "md5_hexdigest genlib_flaky (title demo_article @ content demo_article) = str ''368''"
    by (simp add: genlib_flaky_def demo_digest)
  have hx: "list_all hexdigit (str ''368'')"
    by (simp add: hexdigit_def str_def)
  then have hex: "list_all hexdigit
      (md5_hexdigest genlib_flaky (title demo_article @ content demo_article))"
    by (simp add: dg)
  have dumps: "json_dumps genlib_flaky demo_qa_pairs = demo_body"
    by (simp add: genlib_flaky_def toy_json_dumps_def)
  from miss f0 r1 parse wr1 dg hx
    generate_questions_success[OF miss k fails resp parse written hex]
  show ?thesis
    by (simp add: w dumps) (simp add: str_def)
qed

text \<open>
  Without the hypothesis on the write the property fails, because \<open>open\<close> and \<open>write\<close>
  stand inside the \<open>try\<close> block.  When the answer parses to five records of which one
  holds a lone surrogate, the cache file is opened, the write raises
  \<open>UnicodeEncodeError\<close>, and the attempt counts as failed; after three such attempts the
  function returns the empty list, not the five records, and leaves an empty cache
  file.  When the cache directory does not exist, \<open>open\<close> raises, and the function
  returns the empty list after three requests and writes no file, although each answer
  parsed to five records.
\<close>

theorem generate_questions_write_raises:
  "chat_completion genlib_surrogate 0 (build_prompt demo_article) = Inr (Some surrogate_body) \<and>
   json_loads genlib_surrogate surrogate_body = Inr surrogate_qa_pairs \<and>
   fst (generate_questions genlib_surrogate demo_article (str ''qa_cache'') world_empty) =
     Inr (JArr []) \<and>
   fst (generate_questions genlib_surrogate demo_article (str ''qa_cache'') world_empty) \<noteq>
     Inr surrogate_qa_pairs \<and>
   files (snd (generate_questions genlib_surrogate demo_article (str ''qa_cache'') world_empty)) =
     [str ''qa_cache/368.json'' \<mapsto> []] \<and>
   json_dumps genlib_surrogate surrogate_qa_pairs \<noteq> [] \<and>
   api_calls (snd (generate_questions genlib_surrogate demo_article (str ''qa_cache'')
     world_empty)) =
     [build_prompt demo_article, build_prompt demo_article, build_prompt demo_article] \<and>
   chat_completion genlib_missing_dir 0 (build_prompt demo_article) = Inr (Some demo_body) \<and>
   json_loads genlib_missing_dir demo_body = Inr demo_qa_pairs \<and>
   fst (generate_questions genlib_missing_dir demo_article (str ''qa_cache'') world_empty) =
     Inr (JArr []) \<and>
   fst (generate_questions genlib_missing_dir demo_article (str ''qa_cache'') world_empty) \<noteq>
     Inr demo_qa_pairs \<and>
   files (snd (generate_questions genlib_missing_dir demo_article (str ''qa_cache'')
     world_empty)) = Map.empty"
proof -
  let ?p = "build_prompt demo_article"
  let ?w0 = "logging DEBUG (msg_generating demo_article) world_empty"
  have we: "files world_empty = Map.empty" "api_calls world_empty = []"
    by (simp_all add: world_empty_def api_calls_def List.map_filter_def)
  have surrogate: "fst (generate_questions genlib_surrogate demo_article (str ''qa_cache'') world_empty) =
       Inr (JArr []) \<and>
     files (snd (generate_questions genlib_surrogate demo_article (str ''qa_cache'') world_empty)) =
       [str ''qa_cache/368.json'' \<mapsto> []] \<and>
     api_calls (snd (generate_questions genlib_surrogate demo_article (str ''qa_cache'')
       world_empty)) = [?p, ?p, ?p]"
  proof -
    let ?G = genlib_surrogate
    let ?cf = "cache_file_of ?G demo_article (str ''qa_cache'')"
    let ?e = "UnicodeEncodeError (str ''surrogates not allowed'')"
    let ?w1 = "except_branch ?e 0 ((send_request ?p (logging DEBUG (msg_sending demo_article 0) ?w0))
                 \<lparr>files := (files ?w0)(?cf \<mapsto> [])\<rparr>)"
    let ?w2 = "except_branch ?e 1 ((send_request ?p (logging DEBUG (msg_sending demo_article 1) ?w1))
                 \<lparr>files := (files ?w1)(?cf \<mapsto> [])\<rparr>)"
    let ?w3 = "except_branch ?e 2 ((send_request ?p (logging DEBUG (msg_sending demo_article 2) ?w2))
                 \<lparr>files := (files ?w2)(?cf \<mapsto> [])\<rparr>)"
    have cf: "?cf = str ''qa_cache/368.json''"
      by (rule demo_cache_file) (simp add: genlib_surrogate_def)
    have req: "request_qa_pairs ?G n ?p = Inr surrogate_qa_pairs" for n
      by (simp add: request_qa_pairs_def genlib_surrogate_def surrogate_loads)
    have wr: "open_write ?G n path (json_dumps ?G surrogate_qa_pairs) = WriteRaises ?e []"
      for n path
      by (simp add: genlib_surrogate_def surrogate_dump_raises)
    have miss: "files ?w0 ?cf = None" by (simp add: world_empty_def)
    have R: "generate_questions ?G demo_article (str ''qa_cache'') world_empty =
               (Inr (JArr []), logging ERROR (msg_failed demo_article) ?w3)"
      using miss
      by (simp add: generate_questions_def Let_def max_retries_def range_max_retries
            attempt_loop_write_raises[OF req wr] del: attempt_loop.simps(2))
    show ?thesis unfolding R by (simp add: we cf)
  qed
  have missing: "fst (generate_questions genlib_missing_dir demo_article (str ''qa_cache'') world_empty) =
       Inr (JArr []) \<and>
     files (snd (generate_questions genlib_missing_dir demo_article (str ''qa_cache'')
       world_empty)) = Map.empty"
  proof -
    let ?G = genlib_missing_dir
    let ?cf = "cache_file_of ?G demo_article (str ''qa_cache'')"
    let ?e = "OSError (str ''[Errno 2] No such file or directory'')"
    let ?w1 = "except_branch ?e 0 (send_request ?p (logging DEBUG (msg_sending demo_article 0) ?w0))"
    let ?w2 = "except_branch ?e 1 (send_request ?p (logging DEBUG (msg_sending demo_article 1) ?w1))"
    let ?w3 = "except_branch ?e 2 (send_request ?p (logging DEBUG (msg_sending demo_article 2) ?w2))"
    have req: "request_qa_pairs ?G n ?p = Inr demo_qa_pairs" for n
      by (simp add: request_qa_pairs_def genlib_missing_dir_def toy_json_loads_def)
    have wr: "open_write ?G n path data = OpenRaises ?e" for n path data
      by (simp add: genlib_missing_dir_def missing_dir_open_write_def)
    have miss: "files ?w0 ?cf = None" by (simp add: world_empty_def)
    have R: "generate_questions ?G demo_article (str ''qa_cache'') world_empty =
               (Inr (JArr []), logging ERROR (msg_failed demo_article) ?w3)"
      using miss
      by (simp add: generate_questions_def Let_def max_retries_def range_max_retries
            attempt_loop_open_raises[OF req wr] del: attempt_loop.simps(2))
    show ?thesis unfolding R by (simp add: we)
  qed
  have dumps: "json_dumps genlib_surrogate surrogate_qa_pairs \<noteq> []"
    by (simp add: genlib_surrogate_def toy_json_dumps_def surrogate_differs surrogate_dump_def
          str_def)
  have ne: "Inr (JArr []) \<noteq> (Inr surrogate_qa_pairs :: exn + json)"
    "Inr (JArr []) \<noteq> (Inr demo_qa_pairs :: exn + json)"
    by (simp_all add: surrogate_qa_pairs_def demo_qa_pairs_def)
  have facts:
    "chat_completion genlib_surrogate 0 ?p = Inr (Some surrogate_body)"
    "json_loads genlib_surrogate surrogate_body = Inr surrogate_qa_pairs"
    "chat_completion genlib_missing_dir 0 ?p = Inr (Some demo_body)"
    "json_loads genlib_missing_dir demo_body = Inr demo_qa_pairs"
    by (simp_all add: genlib_surrogate_def genlib_missing_dir_def surrogate_loads)
      (simp add: toy_json_loads_def)
  from surrogate missing dumps ne facts show ?thesis by simp
qed

end
